theory Spec2Isabelle
  imports Complex_Main
begin

section \<open>The notebook \<open>train-with-pytorch.ipynb\<close> as a program over an external platform\<close>

text \<open>
  The notebook is a straight-line Python program: imports, assignments, calls into the
  Azure ML SDK, torch, onnx, \<open>os\<close> and \<open>shutil\<close>, and one \<open>try\<close>/\<open>except\<close>.
  The model keeps exactly that: a state holding the kernel's global names, the sequence
  of calls issued so far with what each returned or raised, and the part of the local
  file system the staging cells touch. Everything a library or the remote service
  decides (whether a call returns or raises, and what object it returns) is a parameter,
  the \<open>world\<close>, which may depend on the whole history of earlier calls.
\<close>

subsection \<open>Values, exceptions, calls\<close>

text \<open>
  Exceptions by class. \<open>ComputeTargetException\<close> stands for the SDK's class, which is
  what the \<open>except\<close> clause of cell 4 names; \<open>OtherException\<close> carries the name of any
  class the notebook does not mention.
\<close>

datatype exn =
    ComputeTargetException
  | NameError string
  | FileExistsError string
  | FileNotFoundError string
  | IsADirectoryError string
  | SameFileError string
  | OtherException string

text \<open>
  Python values as far as the notebook handles them. \<open>FltV\<close> carries the decimal value
  of a float literal as written; the notebook never computes with it. \<open>Obj\<close> is an
  opaque object handed back by a library. \<open>Attr\<close> and \<open>Add\<close> are an attribute read
  and a \<open>+\<close> that the notebook only passes on as an argument.
\<close>

datatype val =
    NoneV
  | Bool bool
  | IntV int
  | FltV rat
  | Str string
  | Lst "val list"
  | Dict "(string \<times> val) list"
  | Obj nat
  | Module string
  | Member string string
  | Attr val string
  | Add val val

text \<open>
  What is called: an import of a module, a function or class reached by the dotted
  path written in the source, or a method of an object.
\<close>

datatype callee = Import string | Global string | Method val string

datatype call = Call callee "val list" "(string \<times> val) list"

datatype event =
    Called call "exn + val"
  | Printed "val list" "(string \<times> val) list"

type_synonym world = "event list \<Rightarrow> call \<Rightarrow> exn + val"

subsection \<open>The local files of the staging step\<close>

datatype node = Dir | File string

type_synonym files = "string \<rightharpoonup> node"

definition basename :: "string \<Rightarrow> string" where
  "basename p = rev (takeWhile (\<lambda>c. c \<noteq> CHR ''/'') (rev p))"

definition path_join :: "string \<Rightarrow> string \<Rightarrow> string" where
  "path_join d b = (if d \<noteq> [] \<and> last d = CHR ''/'' then d @ b else d @ ''/'' @ b)"

text \<open>
  \<open>os.makedirs(name, exist_ok)\<close> of the Python standard library, for a path whose
  parent exists (the notebook's path lies in the working directory): it creates the
  directory; on an existing path it raises \<open>FileExistsError\<close> unless \<open>exist_ok\<close> is set
  and the path is a directory.
\<close>

definition os_makedirs :: "string \<Rightarrow> bool \<Rightarrow> files \<Rightarrow> (exn + val) \<times> files" where
  "os_makedirs name exist_ok fs =
     (case fs name of
        None \<Rightarrow> (Inr NoneV, fs(name \<mapsto> Dir))
      | Some Dir \<Rightarrow> if exist_ok then (Inr NoneV, fs) else (Inl (FileExistsError name), fs)
      | Some (File c) \<Rightarrow> (Inl (FileExistsError name), fs))"

text \<open>
  \<open>shutil.copy(src, dst)\<close> of the Python standard library: a directory \<open>dst\<close> stands
  for the file of the same base name inside it; the source must be a regular file; the
  target is created or overwritten with the source's content; the target path is
  returned.
\<close>

definition shutil_copy :: "string \<Rightarrow> string \<Rightarrow> files \<Rightarrow> (exn + val) \<times> files" where
  "shutil_copy src dst fs =
     (let target = (if fs dst = Some Dir then path_join dst (basename src) else dst) in
      if target = src \<and> fs src \<noteq> None then (Inl (SameFileError src), fs)
      else case fs src of
             None \<Rightarrow> (Inl (FileNotFoundError src), fs)
           | Some Dir \<Rightarrow> (Inl (IsADirectoryError src), fs)
           | Some (File c) \<Rightarrow>
               (case fs target of
                  Some Dir \<Rightarrow> (Inl (IsADirectoryError target), fs)
                | _ \<Rightarrow> (Inr (Str target), fs(target \<mapsto> File c))))"

subsection \<open>Kernel state, expressions and statements\<close>

record nbstate =
  env :: "string \<rightharpoonup> val"
  trace :: "event list"
  files :: files

type_synonym 'a comp = "nbstate \<Rightarrow> (exn + 'a) \<times> nbstate"
type_synonym stmt = "nbstate \<Rightarrow> exn option \<times> nbstate"

text \<open>Reading a global name; an unbound name raises \<open>NameError\<close>.\<close>

definition lookup :: "string \<Rightarrow> val comp" where
  "lookup x \<sigma> = (case env \<sigma> x of None \<Rightarrow> (Inl (NameError x), \<sigma>) | Some v \<Rightarrow> (Inr v, \<sigma>))"

definition bind :: "'a comp \<Rightarrow> ('a \<Rightarrow> 'b comp) \<Rightarrow> 'b comp" where
  "bind m f \<sigma> = (case m \<sigma> of (Inl e, \<sigma>') \<Rightarrow> (Inl e, \<sigma>') | (Inr a, \<sigma>') \<Rightarrow> f a \<sigma>')"

text \<open>A call answered by the world: it is recorded with its answer, and raises or returns.\<close>

definition invoke :: "world \<Rightarrow> callee \<Rightarrow> val list \<Rightarrow> (string \<times> val) list \<Rightarrow> val comp" where
  "invoke w f args kw \<sigma> =
     (let c = Call f args kw; r = w (trace \<sigma>) c
      in (r, \<sigma>\<lparr>trace := trace \<sigma> @ [Called c r]\<rparr>))"

text \<open>A call answered by the local file system.\<close>

definition invoke_fs ::
  "callee \<Rightarrow> val list \<Rightarrow> (string \<times> val) list \<Rightarrow> (files \<Rightarrow> (exn + val) \<times> files) \<Rightarrow> val comp" where
  "invoke_fs f args kw op \<sigma> =
     (case op (files \<sigma>) of
        (r, fs') \<Rightarrow> (r, \<sigma>\<lparr>trace := trace \<sigma> @ [Called (Call f args kw) r], files := fs'\<rparr>))"

definition assign :: "string \<Rightarrow> val comp \<Rightarrow> stmt" where
  "assign x m \<sigma> =
     (case m \<sigma> of
        (Inl e, \<sigma>') \<Rightarrow> (Some e, \<sigma>')
      | (Inr v, \<sigma>') \<Rightarrow> (None, \<sigma>'\<lparr>env := (env \<sigma>')(x \<mapsto> v)\<rparr>))"

definition literal :: "val \<Rightarrow> val comp" where
  "literal v \<sigma> = (Inr v, \<sigma>)"

text \<open>An expression statement: the value is dropped.\<close>

definition expr_stmt :: "val comp \<Rightarrow> stmt" where
  "expr_stmt m \<sigma> = (case m \<sigma> of (Inl e, \<sigma>') \<Rightarrow> (Some e, \<sigma>') | (Inr v, \<sigma>') \<Rightarrow> (None, \<sigma>'))"

text \<open>\<open>print\<close> is output: it is recorded and does not raise.\<close>

definition print_out :: "val list \<Rightarrow> (string \<times> val) list \<Rightarrow> val comp" where
  "print_out args kw \<sigma> = (Inr NoneV, \<sigma>\<lparr>trace := trace \<sigma> @ [Printed args kw]\<rparr>)"

text \<open>Statements in sequence: the first exception ends the sequence.\<close>

fun block :: "stmt list \<Rightarrow> stmt" where
  "block [] \<sigma> = (None, \<sigma>)"
| "block (s # ss) \<sigma> = (case s \<sigma> of (Some e, \<sigma>') \<Rightarrow> (Some e, \<sigma>') | (None, \<sigma>') \<Rightarrow> block ss \<sigma>')"

text \<open>
  \<open>try: body except C: handler\<close> with a class named by a global: when the body
  raises, the name is read, and the handler runs if the exception is of that class.
\<close>

definition try_except :: "stmt \<Rightarrow> string \<Rightarrow> exn \<Rightarrow> stmt \<Rightarrow> stmt" where
  "try_except body cname cls handler \<sigma> =
     (case body \<sigma> of
        (None, \<sigma>') \<Rightarrow> (None, \<sigma>')
      | (Some e, \<sigma>') \<Rightarrow>
          (case env \<sigma>' cname of
             None \<Rightarrow> (Some (NameError cname), \<sigma>')
           | Some _ \<Rightarrow> if e = cls then handler \<sigma>' else (Some e, \<sigma>')))"

definition top_name :: "string \<Rightarrow> string" where
  "top_name m = takeWhile (\<lambda>c. c \<noteq> CHR ''.'') m"

fun bind_names :: "(string \<times> val) list \<Rightarrow> (string \<rightharpoonup> val) \<Rightarrow> (string \<rightharpoonup> val)" where
  "bind_names [] e = e"
| "bind_names ((x, v) # xs) e = bind_names xs (e(x \<mapsto> v))"

definition import_stmt :: "world \<Rightarrow> string \<Rightarrow> val list \<Rightarrow> (string \<times> val) list \<Rightarrow> stmt" where
  "import_stmt w m names bs \<sigma> =
     (case invoke w (Import m) names [] \<sigma> of
        (Inl e, \<sigma>') \<Rightarrow> (Some e, \<sigma>')
      | (Inr _, \<sigma>') \<Rightarrow> (None, \<sigma>'\<lparr>env := bind_names bs (env \<sigma>')\<rparr>))"

text \<open>\<open>import a.b.c\<close> binds the top package name \<open>a\<close>.\<close>

definition import_module :: "world \<Rightarrow> string \<Rightarrow> stmt" where
  "import_module w m = import_stmt w m [] [(top_name m, Module (top_name m))]"

text \<open>\<open>import a.b as x\<close>\<close>

definition import_as :: "world \<Rightarrow> string \<Rightarrow> string \<Rightarrow> stmt" where
  "import_as w m x = import_stmt w m [] [(x, Module m)]"

text \<open>\<open>from m import x, y\<close>\<close>

definition from_import :: "world \<Rightarrow> string \<Rightarrow> string list \<Rightarrow> stmt" where
  "from_import w m xs = import_stmt w m (map Str xs) (map (\<lambda>x. (x, Member m x)) xs)"

text \<open>A path argument must be a string; anything else is a \<open>TypeError\<close>.\<close>

definition on_path :: "val \<Rightarrow> (string \<Rightarrow> files \<Rightarrow> (exn + val) \<times> files) \<Rightarrow> files \<Rightarrow> (exn + val) \<times> files" where
  "on_path v op fs = (case v of Str p \<Rightarrow> op p fs | _ \<Rightarrow> (Inl (OtherException ''TypeError''), fs))"

subsection \<open>The cells, in the order of the notebook\<close>

text \<open>Cell 1: the imports and the version banner.\<close>

definition cell_imports :: "world \<Rightarrow> stmt" where
  "cell_imports w = block [
     import_module w ''azureml.core'',
     from_import w ''azureml.core'' [''Workspace'', ''Experiment''],
     from_import w ''azureml.core.datastore'' [''Datastore''],
     from_import w ''azureml.core.compute'' [''ComputeTarget'', ''AmlCompute''],
     from_import w ''azureml.exceptions'' [''ComputeTargetException''],
     from_import w ''azureml.data.data_reference'' [''DataReference''],
     from_import w ''azureml.pipeline.steps'' [''HyperDriveStep'', ''HyperDriveStepRun''],
     from_import w ''azureml.pipeline.core'' [''Pipeline'', ''PipelineData''],
     from_import w ''azureml.train.hyperdrive''
       [''RandomParameterSampling'', ''BanditPolicy'', ''HyperDriveConfig'', ''PrimaryMetricGoal''],
     from_import w ''azureml.train.hyperdrive'' [''choice'', ''loguniform''],
     from_import w ''azureml.pipeline.core'' [''PipelineParameter''],
     from_import w ''azureml.pipeline.steps'' [''PythonScriptStep''],
     from_import w ''azureml.pipeline.core'' [''Pipeline'', ''PipelineRun''],
     import_module w ''os'',
     import_module w ''shutil'',
     import_module w ''urllib'',
     import_as w ''numpy'' ''np'',
     import_as w ''matplotlib.pyplot'' ''plt'',
     expr_stmt (bind (lookup ''azureml'') (\<lambda>a.
       print_out [Str ''SDK version:'', Attr (Attr a ''core'') ''VERSION''] []))]"

text \<open>Cell 2: \<open>ws = Workspace.from_config()\<close> and the workspace banner.\<close>

definition cell_workspace :: "world \<Rightarrow> stmt" where
  "cell_workspace w = block [
     from_import w ''azureml.core.workspace'' [''Workspace''],
     assign ''ws'' (bind (lookup ''Workspace'') (\<lambda>_.
       invoke w (Global ''Workspace.from_config'') [] [])),
     expr_stmt (bind (lookup ''ws'') (\<lambda>ws.
       print_out [Add (Str ''Workspace name: '') (Attr ws ''name''),
                  Add (Str ''Azure region: '') (Attr ws ''location''),
                  Add (Str ''Subscription id: '') (Attr ws ''subscription_id''),
                  Add (Str ''Resource group: '') (Attr ws ''resource_group'')]
                 [(''sep'', Str [CHR 0x0A])]))]"

text \<open>
  Cell 3: \<open>data_dir = ws.get_default_datastore()\<close>. The line
  \<open>#data_dir.upload('data', overwrite=True, show_progress=False)\<close> is a comment in the
  source, so the cell has no second statement.
\<close>

definition cell_datastore :: "world \<Rightarrow> stmt" where
  "cell_datastore w = block [
     assign ''data_dir'' (bind (lookup ''ws'') (\<lambda>ws.
       invoke w (Method ws ''get_default_datastore'') [] []))]"

text \<open>Cell 4: find the cluster by name, or create it.\<close>

definition find_compute_target :: "world \<Rightarrow> stmt" where
  "find_compute_target w = block [
     assign ''compute_target'' (bind (lookup ''ComputeTarget'') (\<lambda>_.
       bind (lookup ''ws'') (\<lambda>ws. bind (lookup ''cluster_name'') (\<lambda>n.
       invoke w (Global ''ComputeTarget'') [] [(''workspace'', ws), (''name'', n)])))),
     expr_stmt (print_out [Str ''Found existing compute target.''] [])]"

definition create_compute_target :: "world \<Rightarrow> stmt" where
  "create_compute_target w = block [
     expr_stmt (print_out [Str ''Creating a new compute target...''] []),
     assign ''compute_config'' (bind (lookup ''AmlCompute'') (\<lambda>_.
       invoke w (Global ''AmlCompute.provisioning_configuration'') []
         [(''vm_size'', Str ''STANDARD_D3_V2''), (''max_nodes'', IntV 4)])),
     assign ''compute_target'' (bind (lookup ''ComputeTarget'') (\<lambda>_.
       bind (lookup ''ws'') (\<lambda>ws. bind (lookup ''cluster_name'') (\<lambda>n.
       bind (lookup ''compute_config'') (\<lambda>c.
       invoke w (Global ''ComputeTarget.create'') [ws, n, c] []))))),
     expr_stmt (bind (lookup ''compute_target'') (\<lambda>t.
       invoke w (Method t ''wait_for_completion'') [] [(''show_output'', Bool True)]))]"

definition cell_compute :: "world \<Rightarrow> stmt" where
  "cell_compute w = block [
     from_import w ''azureml.core.compute'' [''ComputeTarget'', ''AmlCompute''],
     from_import w ''azureml.core.compute_target'' [''ComputeTargetException''],
     assign ''cluster_name'' (literal (Str ''cpu-cluster'')),
     try_except (find_compute_target w)
       ''ComputeTargetException'' ComputeTargetException
       (create_compute_target w)]"

text \<open>Cell 5: the project directory.\<close>

definition cell_project_dir :: "world \<Rightarrow> stmt" where
  "cell_project_dir w = block [
     import_module w ''os'',
     assign ''script_folder'' (literal (Str ''./pytorch-birds'')),
     expr_stmt (bind (lookup ''os'') (\<lambda>_. bind (lookup ''script_folder'') (\<lambda>d.
       invoke_fs (Global ''os.makedirs'') [d] [(''exist_ok'', Bool True)]
         (on_path d (\<lambda>p. os_makedirs p True)))))]"

text \<open>Cell 6: the training script is copied into it.\<close>

definition cell_copy_script :: "world \<Rightarrow> stmt" where
  "cell_copy_script w = block [
     expr_stmt (bind (lookup ''shutil'') (\<lambda>_. bind (lookup ''script_folder'') (\<lambda>d.
       invoke_fs (Global ''shutil.copy'') [Str ''pytorch_train.py'', d] []
         (on_path d (shutil_copy ''pytorch_train.py'')))))]"

text \<open>Cell 7: the estimator.\<close>

definition cell_estimator :: "world \<Rightarrow> stmt" where
  "cell_estimator w = block [
     from_import w ''azureml.train.dnn'' [''PyTorch''],
     assign ''est'' (bind (lookup ''PyTorch'') (\<lambda>_.
       bind (lookup ''script_folder'') (\<lambda>d. bind (lookup ''compute_target'') (\<lambda>t.
       invoke w (Global ''PyTorch'') []
         [(''source_directory'', d), (''compute_target'', t),
          (''entry_script'', Str ''pytorch_train.py''),
          (''pip_packages'', Lst [Str ''pillow==5.4.1''])]))))]"

text \<open>Cell 8: the pipeline output and the input data reference.\<close>

definition cell_data_refs :: "world \<Rightarrow> stmt" where
  "cell_data_refs w = block [
     from_import w ''azureml.pipeline.core'' [''PipelineData''],
     assign ''output'' (bind (lookup ''PipelineData'') (\<lambda>_. bind (lookup ''data_dir'') (\<lambda>d.
       invoke w (Global ''PipelineData'') [Str ''output''] [(''datastore'', d)]))),
     assign ''input_data'' (bind (lookup ''DataReference'') (\<lambda>_.
       bind (lookup ''data_dir'') (\<lambda>d.
       invoke w (Global ''DataReference'') []
         [(''datastore'', d), (''data_reference_name'', Str ''input_data''),
          (''path_on_datastore'', Str ''fowl_data'')])))]"

text \<open>Cell 9: the sweep configuration.\<close>

definition cell_hyperdrive_config :: "world \<Rightarrow> stmt" where
  "cell_hyperdrive_config w = block [
     from_import w ''azureml.train.hyperdrive''
       [''RandomParameterSampling'', ''BanditPolicy'', ''HyperDriveConfig'', ''uniform'',
        ''PrimaryMetricGoal''],
     assign ''param_sampling'' (bind (lookup ''RandomParameterSampling'') (\<lambda>_.
       bind (lookup ''uniform'') (\<lambda>_.
       bind (invoke w (Global ''uniform'') [FltV (5 / 10000), FltV (5 / 1000)] []) (\<lambda>lr.
       bind (lookup ''uniform'') (\<lambda>_.
       bind (invoke w (Global ''uniform'') [FltV (9 / 10), FltV (99 / 100)] []) (\<lambda>mo.
       invoke w (Global ''RandomParameterSampling'')
         [Dict [(''learning_rate'', lr), (''momentum'', mo)]] [])))))),
     assign ''early_termination_policy'' (bind (lookup ''BanditPolicy'') (\<lambda>_.
       invoke w (Global ''BanditPolicy'') []
         [(''slack_factor'', FltV (15 / 100)), (''evaluation_interval'', IntV 1),
          (''delay_evaluation'', IntV 10)])),
     assign ''hd_config'' (bind (lookup ''HyperDriveConfig'') (\<lambda>_.
       bind (lookup ''est'') (\<lambda>e. bind (lookup ''param_sampling'') (\<lambda>ps.
       bind (lookup ''early_termination_policy'') (\<lambda>p.
       bind (lookup ''PrimaryMetricGoal'') (\<lambda>g.
       invoke w (Global ''HyperDriveConfig'') []
         [(''estimator'', e), (''hyperparameter_sampling'', ps), (''policy'', p),
          (''primary_metric_name'', Str ''best_val_acc''),
          (''primary_metric_goal'', Attr g ''MAXIMIZE''),
          (''max_total_runs'', IntV 8), (''max_concurrent_runs'', IntV 4)]))))))]"

text \<open>Cell 10: the sweep as a pipeline step.\<close>

definition cell_hyperdrive_step :: "world \<Rightarrow> stmt" where
  "cell_hyperdrive_step w = block [
     assign ''metrics_output_name'' (literal (Str ''metrics_output'')),
     assign ''metrics_data'' (bind (lookup ''PipelineData'') (\<lambda>_.
       bind (lookup ''data_dir'') (\<lambda>d. bind (lookup ''metrics_output_name'') (\<lambda>n.
       invoke w (Global ''PipelineData'') []
         [(''name'', Str ''metrics_data''), (''datastore'', d),
          (''pipeline_output_name'', n)])))),
     assign ''hd_step_name'' (literal (Str ''Hyperdrive_step'')),
     assign ''hd_step'' (bind (lookup ''HyperDriveStep'') (\<lambda>_.
       bind (lookup ''hd_step_name'') (\<lambda>n. bind (lookup ''hd_config'') (\<lambda>c.
       bind (lookup ''input_data'') (\<lambda>i. bind (lookup ''metrics_data'') (\<lambda>m.
       invoke w (Global ''HyperDriveStep'') []
         [(''name'', n), (''hyperdrive_config'', c),
          (''estimator_entry_script_arguments'',
             Lst [Str ''--data_dir'', i, Str ''--num_epochs'', IntV 5]),
          (''inputs'', Lst [i]), (''metrics_output'', m)]))))))]"

text \<open>
  Cell 11: the experiment, the pipeline (bound to \<open>pipeline1\<close>) and the submission
  (of the name \<open>pipeline\<close>).
\<close>

definition cell_submit :: "world \<Rightarrow> stmt" where
  "cell_submit w = block [
     assign ''exp'' (bind (lookup ''Experiment'') (\<lambda>_. bind (lookup ''ws'') (\<lambda>ws.
       invoke w (Global ''Experiment'') []
         [(''workspace'', ws), (''name'', Str ''Hyperdrive_sample'')]))),
     assign ''pipeline1'' (bind (lookup ''Pipeline'') (\<lambda>_. bind (lookup ''ws'') (\<lambda>ws.
       bind (lookup ''hd_step'') (\<lambda>s.
       invoke w (Global ''Pipeline'') [] [(''workspace'', ws), (''steps'', Lst [s])])))),
     assign ''pipeline_run'' (bind (lookup ''exp'') (\<lambda>e. bind (lookup ''pipeline'') (\<lambda>p.
       invoke w (Method e ''submit'') [p] [])))]"

text \<open>
  Cell 12: the best run of the sweep. The subscript \<open>[0]\<close> is the call of
  \<open>__getitem__\<close> on what \<open>find_step_run\<close> returned.
\<close>

definition cell_best_run :: "world \<Rightarrow> stmt" where
  "cell_best_run w = block [
     assign ''hd_step_run'' (bind (lookup ''HyperDriveStepRun'') (\<lambda>_.
       bind (lookup ''pipeline_run'') (\<lambda>r. bind (lookup ''hd_step_name'') (\<lambda>n.
       bind (invoke w (Method r ''find_step_run'') [n] []) (\<lambda>l.
       bind (invoke w (Method l ''__getitem__'') [IntV 0] []) (\<lambda>s.
       invoke w (Global ''HyperDriveStepRun'') [] [(''step_run'', s)])))))),
     assign ''best_run'' (bind (lookup ''hd_step_run'') (\<lambda>h.
       invoke w (Method h ''get_best_run_by_primary_metric'') [] [])),
     expr_stmt (lookup ''best_run'')]"

text \<open>Cell 13: download and load the model.\<close>

definition cell_download :: "world \<Rightarrow> stmt" where
  "cell_download w = block [
     import_module w ''torch'',
     expr_stmt (bind (lookup ''best_run'') (\<lambda>b.
       invoke w (Method b ''download_file'') [Str ''outputs/model.pt'']
         [(''output_file_path'', Str ''model.pt'')])),
     assign ''best_run_model'' (bind (lookup ''torch'') (\<lambda>_.
       invoke w (Global ''torch.load'') [Str ''model.pt''] []))]"

text \<open>Cell 14: export to ONNX with a dummy input.\<close>

definition cell_export :: "world \<Rightarrow> stmt" where
  "cell_export w = block [
     import_module w ''torch.onnx'',
     assign ''dummy_input'' (bind (lookup ''torch'') (\<lambda>_.
       invoke w (Global ''torch.randn'') [IntV 1, IntV 3, IntV 224, IntV 224] [])),
     expr_stmt (bind (lookup ''torch'') (\<lambda>_. bind (lookup ''best_run_model'') (\<lambda>m.
       bind (lookup ''dummy_input'') (\<lambda>d.
       invoke w (Global ''torch.onnx.export'') [m, d, Str ''model.onnx''] []))))]"

text \<open>Cell 15: load and check the exported graph.\<close>

definition cell_check :: "world \<Rightarrow> stmt" where
  "cell_check w = block [
     import_module w ''onnx'',
     assign ''onnx_model'' (bind (lookup ''onnx'') (\<lambda>_.
       invoke w (Global ''onnx.load'') [Str ''model.onnx''] [])),
     expr_stmt (bind (lookup ''onnx'') (\<lambda>_. bind (lookup ''onnx_model'') (\<lambda>m.
       invoke w (Global ''onnx.checker.check_model'') [m] [])))]"

text \<open>Cell 16: register the model.\<close>

definition cell_register :: "world \<Rightarrow> stmt" where
  "cell_register w = block [
     from_import w ''azureml.core.model'' [''Model''],
     assign ''model'' (bind (lookup ''Model'') (\<lambda>_. bind (lookup ''ws'') (\<lambda>ws.
       invoke w (Global ''Model.register'') []
         [(''workspace'', ws), (''model_path'', Str ''model.onnx''),
          (''model_name'', Str ''onnx-birds'')]))),
     expr_stmt (bind (lookup ''model'') (\<lambda>m.
       print_out [Attr m ''name'', Attr m ''id'', Attr m ''version'']
                 [(''sep'', Str [CHR 0x09])]))]"

definition notebook :: "world \<Rightarrow> stmt list" where
  "notebook w =
     [cell_imports w, cell_workspace w, cell_datastore w, cell_compute w,
      cell_project_dir w, cell_copy_script w, cell_estimator w, cell_data_refs w,
      cell_hyperdrive_config w, cell_hyperdrive_step w, cell_submit w, cell_best_run w,
      cell_download w, cell_export w, cell_check w, cell_register w]"

text \<open>A fresh kernel: no name is bound, nothing has been called.\<close>

definition fresh :: "files \<Rightarrow> nbstate" where
  "fresh fs = \<lparr>env = Map.empty, trace = [], files = fs\<rparr>"

text \<open>Running the cells in order in a fresh kernel, stopping at the first cell that raises.\<close>

definition run_all :: "world \<Rightarrow> files \<Rightarrow> exn option \<times> nbstate" where
  "run_all w fs = block (notebook w) (fresh fs)"

subsection \<open>Example worlds and working directories\<close>

text \<open>Every call returns a new object.\<close>

definition world_ok :: world where
  "world_ok h c = Inr (Obj (length h))"

text \<open>The same, but the cluster does not exist yet.\<close>

definition world_no_cluster :: world where
  "world_no_cluster h c =
     (case c of
        Call (Global f) _ _ \<Rightarrow>
          if f = ''ComputeTarget'' then Inl ComputeTargetException else Inr (Obj (length h))
      | _ \<Rightarrow> Inr (Obj (length h)))"

text \<open>A working directory that holds the training script and nothing else.\<close>

definition fs_script :: files where
  "fs_script = [''pytorch_train.py'' \<mapsto> File ''train'']"

subsection \<open>Observing a run\<close>

text \<open>The events a run from \<open>\<sigma>\<close> to \<open>\<sigma>'\<close> has added.\<close>

definition new_events :: "nbstate \<Rightarrow> nbstate \<Rightarrow> event list" where
  "new_events \<sigma> \<sigma>' = drop (length (trace \<sigma>)) (trace \<sigma>')"

fun is_global :: "string \<Rightarrow> event \<Rightarrow> bool" where
  "is_global f (Called (Call (Global g) args kw) r) = (f = g)"
| "is_global f ev = False"

fun is_method :: "string \<Rightarrow> event \<Rightarrow> bool" where
  "is_method f (Called (Call (Method recv g) args kw) r) = (f = g)"
| "is_method f ev = False"

text \<open>What a call raised, if it raised.\<close>

fun raised :: "event \<Rightarrow> exn option" where
  "raised (Called c (Inl e)) = Some e"
| "raised ev = None"

text \<open>The calls and messages of cell 4, with the arguments the notebook gives them.\<close>

definition compute_import :: call where
  "compute_import =
     Call (Import ''azureml.core.compute'') [Str ''ComputeTarget'', Str ''AmlCompute''] []"

definition exception_import :: call where
  "exception_import =
     Call (Import ''azureml.core.compute_target'') [Str ''ComputeTargetException''] []"

definition lookup_call :: "val \<Rightarrow> call" where
  "lookup_call wsv =
     Call (Global ''ComputeTarget'') [] [(''workspace'', wsv), (''name'', Str ''cpu-cluster'')]"

definition found_message :: event where
  "found_message = Printed [Str ''Found existing compute target.''] []"

definition creating_message :: event where
  "creating_message = Printed [Str ''Creating a new compute target...''] []"

definition provisioning_call :: call where
  "provisioning_call =
     Call (Global ''AmlCompute.provisioning_configuration'') []
       [(''vm_size'', Str ''STANDARD_D3_V2''), (''max_nodes'', IntV 4)]"

definition create_call :: "val \<Rightarrow> val \<Rightarrow> call" where
  "create_call wsv cfg =
     Call (Global ''ComputeTarget.create'') [wsv, Str ''cpu-cluster'', cfg] []"

definition wait_call :: "val \<Rightarrow> call" where
  "wait_call t = Call (Method t ''wait_for_completion'') [] [(''show_output'', Bool True)]"

text \<open>\<open>ws.get_default_datastore()\<close>\<close>

definition datastore_call :: "val \<Rightarrow> call" where
  "datastore_call wsv = Call (Method wsv ''get_default_datastore'') [] []"

definition randn_call :: call where
  "randn_call = Call (Global ''torch.randn'') [IntV 1, IntV 3, IntV 224, IntV 224] []"

text \<open>
  Scanning the events from the start, one that satisfies \<open>P\<close> comes before any that
  satisfies \<open>Q\<close>.
\<close>

fun comes_first :: "(event \<Rightarrow> bool) \<Rightarrow> (event \<Rightarrow> bool) \<Rightarrow> event list \<Rightarrow> bool" where
  "comes_first P Q [] = True"
| "comes_first P Q (ev # evs) = (if P ev then True else \<not> Q ev \<and> comes_first P Q evs)"

text \<open>The training script is launched: its estimator is built, or a run is submitted.\<close>

definition launches :: "event \<Rightarrow> bool" where
  "launches ev = (is_global ''PyTorch'' ev \<or> is_method ''submit'' ev)"

text \<open>Kernels in which a single earlier result is bound.\<close>

definition ws_state :: nbstate where
  "ws_state = \<lparr>env = [''ws'' \<mapsto> Obj 0], trace = [], files = fs_script\<rparr>"

definition est_state :: nbstate where
  "est_state = \<lparr>env = [''est'' \<mapsto> Obj 1], trace = [], files = fs_script\<rparr>"

definition best_run_state :: nbstate where
  "best_run_state =
     \<lparr>env = [''ws'' \<mapsto> Obj 0, ''best_run'' \<mapsto> Obj 1], trace = [], files = fs_script\<rparr>"


text \<open>A kernel in which the name \<open>pipeline\<close> is already bound when the notebook starts.\<close>

definition stale_kernel :: nbstate where
  "stale_kernel = \<lparr>env = [''pipeline'' \<mapsto> Obj 99], trace = [], files = fs_script\<rparr>"

text \<open>That kernel after cells 1 and 2, and after cells 1 to 10, where every call succeeds.\<close>

definition after_workspace :: nbstate where
  "after_workspace = snd (block (take 2 (notebook world_ok)) stale_kernel)"

definition submit_ready :: nbstate where
  "submit_ready = snd (block (take 10 (notebook world_ok)) stale_kernel)"

text \<open>The events between the submission and the first query for the step run.\<close>

definition after_submit :: "event list \<Rightarrow> event list" where
  "after_submit evs = tl (dropWhile (\<lambda>ev. \<not> is_method ''submit'' ev) evs)"

definition waits_after_submit :: "event list \<Rightarrow> bool" where
  "waits_after_submit evs =
     (takeWhile (\<lambda>ev. \<not> is_method ''find_step_run'' ev) (after_submit evs) \<noteq> [])"

text \<open>
  The one failure the notebook handles: the lookup of the compute target raising
  \<open>ComputeTargetException\<close>.
\<close>

fun caught :: "event \<Rightarrow> bool" where
  "caught (Called (Call (Global f) args kw) (Inl e)) =
     (f = ''ComputeTarget'' \<and> e = ComputeTargetException)"
| "caught ev = False"

text \<open>
  How the notebook handles it: the next things that happen are the message of the
  handler and the provisioning request.
\<close>

fun starts_provisioning :: "event list \<Rightarrow> bool" where
  "starts_provisioning (m # Called c r # evs) = (m = creating_message \<and> c = provisioning_call)"
| "starts_provisioning evs = False"

fun handled :: "event list \<Rightarrow> bool" where
  "handled [] = True"
| "handled (ev # evs) = ((if caught ev then starts_provisioning evs else True) \<and> handled evs)"

text \<open>The failed calls among the events that no handler took.\<close>

definition uncaught :: "event list \<Rightarrow> event list" where
  "uncaught evs = filter (\<lambda>ev. raised ev \<noteq> None \<and> \<not> caught ev) evs"

text \<open>
  An outcome lets every failure through: no call failed unhandled, or exactly one did,
  it was the last thing that happened, and what it raised is the outcome.
\<close>

definition surfaced :: "exn option \<Rightarrow> event list \<Rightarrow> bool" where
  "surfaced out evs =
     (uncaught evs = [] \<or> (evs \<noteq> [] \<and> uncaught evs = [last evs] \<and> raised (last evs) = out))"

fun error_of :: "exn + 'a \<Rightarrow> exn option" where
  "error_of (Inl e) = Some e"
| "error_of (Inr a) = None"

definition surfaces :: "('r \<Rightarrow> exn option) \<Rightarrow> (nbstate \<Rightarrow> 'r \<times> nbstate) \<Rightarrow> bool" where
  "surfaces err m =
     (\<forall>\<sigma>. \<exists>evs. trace (snd (m \<sigma>)) = trace \<sigma> @ evs \<and> surfaced (err (fst (m \<sigma>))) evs)"

text \<open>Every event a computation adds satisfies \<open>P\<close>.\<close>

definition emits :: "(event \<Rightarrow> bool) \<Rightarrow> (nbstate \<Rightarrow> 'r \<times> nbstate) \<Rightarrow> bool" where
  "emits P m = (\<forall>\<sigma>. \<exists>evs. trace (snd (m \<sigma>)) = trace \<sigma> @ evs \<and> list_all P evs)"

text \<open>
  A statement under which failures surface and the handled failure is handled as above.
\<close>

definition sound :: "stmt \<Rightarrow> bool" where
  "sound s =
     (\<forall>\<sigma>. \<exists>evs. trace (snd (s \<sigma>)) = trace \<sigma> @ evs
             \<and> surfaced (fst (s \<sigma>)) evs \<and> handled evs)"

text \<open>The cluster does not exist yet, and registering the model fails.\<close>

definition world_new_cluster_no_registry :: world where
  "world_new_cluster_no_registry h c =
     (case c of
        Call (Global f) args kw \<Rightarrow>
          if f = ''ComputeTarget'' then Inl ComputeTargetException
          else if f = ''Model.register'' then Inl (OtherException ''WebserviceException'')
          else Inr (Obj (length h))
      | _ \<Rightarrow> Inr (Obj (length h)))"


text \<open>A computation that binds no name, and a statement that leaves a name unbound.\<close>

definition keeps_env :: "(nbstate \<Rightarrow> 'r \<times> nbstate) \<Rightarrow> bool" where
  "keeps_env m = (\<forall>\<sigma>. env (snd (m \<sigma>)) = env \<sigma>)"

definition leaves_unbound :: "string \<Rightarrow> stmt \<Rightarrow> bool" where
  "leaves_unbound x s = (\<forall>\<sigma>. env \<sigma> x = None \<longrightarrow> env (snd (s \<sigma>)) x = None)"
subsection \<open>Results of statements, by cases\<close>

text \<open>
  The same case distinctions as in the statements above, as functions of a result that
  has already been computed. The statements are evaluated through them.
\<close>

fun lookup_res :: "string \<Rightarrow> val option \<Rightarrow> nbstate \<Rightarrow> (exn + val) \<times> nbstate" where
  "lookup_res x None \<sigma> = (Inl (NameError x), \<sigma>)"
| "lookup_res x (Some v) \<sigma> = (Inr v, \<sigma>)"

fun bind_res :: "(exn + 'a) \<times> nbstate \<Rightarrow> ('a \<Rightarrow> 'b comp) \<Rightarrow> (exn + 'b) \<times> nbstate" where
  "bind_res (Inl e, \<sigma>') f = (Inl e, \<sigma>')"
| "bind_res (Inr a, \<sigma>') f = f a \<sigma>'"

definition record_res :: "call \<Rightarrow> exn + val \<Rightarrow> nbstate \<Rightarrow> (exn + val) \<times> nbstate" where
  "record_res c r \<sigma> = (r, \<sigma>\<lparr>trace := trace \<sigma> @ [Called c r]\<rparr>)"

fun fs_res :: "call \<Rightarrow> (exn + val) \<times> files \<Rightarrow> nbstate \<Rightarrow> (exn + val) \<times> nbstate" where
  "fs_res c (r, fs') \<sigma> = (r, \<sigma>\<lparr>trace := trace \<sigma> @ [Called c r], files := fs'\<rparr>)"

fun assign_res :: "string \<Rightarrow> (exn + val) \<times> nbstate \<Rightarrow> exn option \<times> nbstate" where
  "assign_res x (Inl e, \<sigma>') = (Some e, \<sigma>')"
| "assign_res x (Inr v, \<sigma>') = (None, \<sigma>'\<lparr>env := (env \<sigma>')(x \<mapsto> v)\<rparr>)"

fun expr_res :: "(exn + val) \<times> nbstate \<Rightarrow> exn option \<times> nbstate" where
  "expr_res (Inl e, \<sigma>') = (Some e, \<sigma>')"
| "expr_res (Inr v, \<sigma>') = (None, \<sigma>')"

fun import_res :: "(string \<times> val) list \<Rightarrow> (exn + val) \<times> nbstate \<Rightarrow> exn option \<times> nbstate" where
  "import_res bs (Inl e, \<sigma>') = (Some e, \<sigma>')"
| "import_res bs (Inr v, \<sigma>') = (None, \<sigma>'\<lparr>env := bind_names bs (env \<sigma>')\<rparr>)"

fun block_res :: "exn option \<times> nbstate \<Rightarrow> stmt list \<Rightarrow> exn option \<times> nbstate" where
  "block_res (Some e, \<sigma>') ss = (Some e, \<sigma>')"
| "block_res (None, \<sigma>') ss = block ss \<sigma>'"

fun handler_res :: "val option \<Rightarrow> string \<Rightarrow> exn \<Rightarrow> exn \<Rightarrow> stmt \<Rightarrow> stmt" where
  "handler_res None cname e cls handler \<sigma>' = (Some (NameError cname), \<sigma>')"
| "handler_res (Some c) cname e cls handler \<sigma>' =
     (if e = cls then handler \<sigma>' else (Some e, \<sigma>'))"

fun try_res :: "exn option \<times> nbstate \<Rightarrow> string \<Rightarrow> exn \<Rightarrow> stmt \<Rightarrow> exn option \<times> nbstate" where
  "try_res (None, \<sigma>') cname cls handler = (None, \<sigma>')"
| "try_res (Some e, \<sigma>') cname cls handler =
     handler_res (env \<sigma>' cname) cname e cls handler \<sigma>'"

section \<open>Evaluating statements\<close>

lemma lookup_eval: "lookup x \<sigma> = lookup_res x (env \<sigma> x) \<sigma>"
  by (cases "env \<sigma> x") (simp_all add: lookup_def)

lemma bind_eval: "bind m f \<sigma> = bind_res (m \<sigma>) f"
proof (cases "m \<sigma>")
  case (Pair r \<sigma>')
  then show ?thesis by (cases r) (simp_all add: bind_def)
qed

lemma invoke_eval:
  "invoke w f args kw \<sigma> = record_res (Call f args kw) (w (trace \<sigma>) (Call f args kw)) \<sigma>"
  by (simp add: invoke_def record_res_def Let_def)

lemma invoke_fs_eval: "invoke_fs f args kw op \<sigma> = fs_res (Call f args kw) (op (files \<sigma>)) \<sigma>"
  by (cases "op (files \<sigma>)") (simp add: invoke_fs_def)

lemma assign_eval: "assign x m \<sigma> = assign_res x (m \<sigma>)"
proof (cases "m \<sigma>")
  case (Pair r \<sigma>')
  then show ?thesis by (cases r) (simp_all add: assign_def)
qed

lemma expr_stmt_eval: "expr_stmt m \<sigma> = expr_res (m \<sigma>)"
proof (cases "m \<sigma>")
  case (Pair r \<sigma>')
  then show ?thesis by (cases r) (simp_all add: expr_stmt_def)
qed

lemma import_stmt_eval:
  "import_stmt w m names bs \<sigma> = import_res bs (invoke w (Import m) names [] \<sigma>)"
proof (cases "invoke w (Import m) names [] \<sigma>")
  case (Pair r \<sigma>')
  then show ?thesis by (cases r) (simp_all add: import_stmt_def)
qed

lemma block_eval: "block (s # ss) \<sigma> = block_res (s \<sigma>) ss"
proof (cases "s \<sigma>")
  case (Pair out \<sigma>')
  then show ?thesis by (cases out) simp_all
qed

lemma try_except_eval:
  "try_except body cname cls handler \<sigma> = try_res (body \<sigma>) cname cls handler"
proof (cases "body \<sigma>")
  case (Pair out \<sigma>')
  then show ?thesis
    by (cases out; cases "env \<sigma>' cname") (simp_all add: try_except_def)
qed

lemmas stmt_eval =
  lookup_eval bind_eval invoke_eval invoke_fs_eval assign_eval expr_stmt_eval
  import_stmt_eval block_eval try_except_eval literal_def print_out_def record_res_def
  import_module_def import_as_def from_import_def top_name_def

lemmas cell_defs =
  cell_imports_def cell_workspace_def cell_datastore_def find_compute_target_def
  create_compute_target_def cell_compute_def cell_project_dir_def cell_copy_script_def
  cell_estimator_def cell_data_refs_def cell_hyperdrive_config_def
  cell_hyperdrive_step_def cell_submit_def cell_best_run_def cell_download_def
  cell_export_def cell_check_def cell_register_def


lemma assign_res_case:
  "assign_res x (r, \<sigma>') =
     (case r of Inl e \<Rightarrow> (Some e, \<sigma>')
      | Inr v \<Rightarrow> (None, \<sigma>'\<lparr>env := (env \<sigma>')(x \<mapsto> v)\<rparr>))"
  by (cases r) simp_all

lemma expr_res_case:
  "expr_res (r, \<sigma>') = (case r of Inl e \<Rightarrow> (Some e, \<sigma>') | Inr v \<Rightarrow> (None, \<sigma>'))"
  by (cases r) simp_all

lemma import_res_case:
  "import_res bs (r, \<sigma>') =
     (case r of Inl e \<Rightarrow> (Some e, \<sigma>')
      | Inr v \<Rightarrow> (None, \<sigma>'\<lparr>env := bind_names bs (env \<sigma>')\<rparr>))"
  by (cases r) simp_all

lemma bind_res_case:
  "bind_res (r, \<sigma>') f = (case r of Inl e \<Rightarrow> (Inl e, \<sigma>') | Inr v \<Rightarrow> f v \<sigma>')"
  by (cases r) simp_all

lemma lookup_res_case:
  "lookup_res x r \<sigma> = (case r of None \<Rightarrow> (Inl (NameError x), \<sigma>) | Some v \<Rightarrow> (Inr v, \<sigma>))"
  by (cases r) simp_all

lemmas res_cases =
  assign_res_case expr_res_case import_res_case bind_res_case lookup_res_case

text \<open>Closed runs are evaluated with the same equations.\<close>

declare lookup_eval [code] bind_eval [code] invoke_eval [code] invoke_fs_eval [code]
  assign_eval [code] expr_stmt_eval [code] import_stmt_eval [code]
  block.simps(1) [code] block_eval [code] try_except_eval [code]

lemma run_pair: "s \<sigma> = (fst (s \<sigma>), snd (s \<sigma>))"
  by simp

lemma run_ok: "fst (s \<sigma>) = None \<Longrightarrow> s \<sigma> = (None, snd (s \<sigma>))"
  by (cases "s \<sigma>") simp

section \<open>What statements emit\<close>

lemma emits_lookup: "emits P (lookup x)"
  by (auto simp: emits_def lookup_def split: option.splits)

lemma emits_literal: "emits P (literal v)"
  by (simp add: emits_def literal_def)

lemma emits_print: "P (Printed args kw) \<Longrightarrow> emits P (print_out args kw)"
  by (simp add: emits_def print_out_def)

lemma emits_invoke: "(\<And>r. P (Called (Call f args kw) r)) \<Longrightarrow> emits P (invoke w f args kw)"
  by (simp add: emits_def invoke_def Let_def)

lemma emits_invoke_fs:
  "(\<And>r. P (Called (Call f args kw) r)) \<Longrightarrow> emits P (invoke_fs f args kw op)"
  by (auto simp: emits_def invoke_fs_def split: prod.splits)

lemma emits_bind:
  assumes "emits P m" and "\<And>a. emits P (f a)"
  shows "emits P (bind m f)"
  unfolding emits_def
proof
  fix \<sigma>
  obtain r \<sigma>1 where m: "m \<sigma> = (r, \<sigma>1)" by (cases "m \<sigma>")
  from assms(1) m obtain evs1 where e1: "trace \<sigma>1 = trace \<sigma> @ evs1" "list_all P evs1"
    unfolding emits_def by (metis snd_conv)
  show "\<exists>evs. trace (snd (bind m f \<sigma>)) = trace \<sigma> @ evs \<and> list_all P evs"
  proof (cases r)
    case (Inl e)
    with m e1 show ?thesis by (auto simp: bind_def)
  next
    case (Inr a)
    from assms(2) [of a] obtain evs2 where
      e2: "trace (snd (f a \<sigma>1)) = trace \<sigma>1 @ evs2" "list_all P evs2"
      unfolding emits_def by blast
    from Inr m have "bind m f \<sigma> = f a \<sigma>1" by (simp add: bind_def)
    with e1 e2 have "trace (snd (bind m f \<sigma>)) = trace \<sigma> @ (evs1 @ evs2) \<and> list_all P (evs1 @ evs2)"
      by simp
    then show ?thesis by blast
  qed
qed

lemma emits_assign: "emits P m \<Longrightarrow> emits P (assign x m)"
  unfolding emits_def
proof
  fix \<sigma>
  assume a: "\<forall>\<sigma>. \<exists>evs. trace (snd (m \<sigma>)) = trace \<sigma> @ evs \<and> list_all P evs"
  obtain r \<sigma>1 where m: "m \<sigma> = (r, \<sigma>1)" by (cases "m \<sigma>")
  from a m obtain evs where "trace \<sigma>1 = trace \<sigma> @ evs" "list_all P evs"
    by (metis snd_conv)
  with m show "\<exists>evs. trace (snd (assign x m \<sigma>)) = trace \<sigma> @ evs \<and> list_all P evs"
    by (cases r) (auto simp: assign_def)
qed

lemma emits_expr: "emits P m \<Longrightarrow> emits P (expr_stmt m)"
  unfolding emits_def
proof
  fix \<sigma>
  assume a: "\<forall>\<sigma>. \<exists>evs. trace (snd (m \<sigma>)) = trace \<sigma> @ evs \<and> list_all P evs"
  obtain r \<sigma>1 where m: "m \<sigma> = (r, \<sigma>1)" by (cases "m \<sigma>")
  from a m obtain evs where "trace \<sigma>1 = trace \<sigma> @ evs" "list_all P evs"
    by (metis snd_conv)
  with m show "\<exists>evs. trace (snd (expr_stmt m \<sigma>)) = trace \<sigma> @ evs \<and> list_all P evs"
    by (cases r) (auto simp: expr_stmt_def)
qed

lemma emits_import_stmt:
  "(\<And>r. P (Called (Call (Import m) names []) r)) \<Longrightarrow> emits P (import_stmt w m names bs)"
  by (auto simp: emits_def import_stmt_def invoke_def Let_def split: sum.splits)

lemma emits_import_module:
  "(\<And>r. P (Called (Call (Import m) [] []) r)) \<Longrightarrow> emits P (import_module w m)"
  by (simp add: import_module_def emits_import_stmt)

lemma emits_import_as:
  "(\<And>r. P (Called (Call (Import m) [] []) r)) \<Longrightarrow> emits P (import_as w m x)"
  by (simp add: import_as_def emits_import_stmt)

lemma emits_from_import:
  "(\<And>r. P (Called (Call (Import m) (map Str xs) []) r)) \<Longrightarrow> emits P (from_import w m xs)"
  by (simp add: from_import_def emits_import_stmt)

lemma emits_block_Nil: "emits P (block [])"
  by (simp add: emits_def)

lemma emits_block_Cons:
  assumes "emits P s" and "emits P (block ss)"
  shows "emits P (block (s # ss))"
  unfolding emits_def
proof
  fix \<sigma>
  obtain out \<sigma>1 where s: "s \<sigma> = (out, \<sigma>1)" by (cases "s \<sigma>")
  from assms(1) s obtain evs1 where e1: "trace \<sigma>1 = trace \<sigma> @ evs1" "list_all P evs1"
    unfolding emits_def by (metis snd_conv)
  show "\<exists>evs. trace (snd (block (s # ss) \<sigma>)) = trace \<sigma> @ evs \<and> list_all P evs"
  proof (cases out)
    case (Some e)
    with s e1 show ?thesis by auto
  next
    case None
    from assms(2) obtain evs2 where
      e2: "trace (snd (block ss \<sigma>1)) = trace \<sigma>1 @ evs2" "list_all P evs2"
      unfolding emits_def by blast
    from None s have "block (s # ss) \<sigma> = block ss \<sigma>1" by simp
    with e1 e2 have "trace (snd (block (s # ss) \<sigma>)) = trace \<sigma> @ (evs1 @ evs2) \<and> list_all P (evs1 @ evs2)"
      by simp
    then show ?thesis by blast
  qed
qed

lemma emits_try:
  assumes "emits P body" and "emits P handler"
  shows "emits P (try_except body cname cls handler)"
  unfolding emits_def
proof
  fix \<sigma>
  obtain out \<sigma>1 where b: "body \<sigma> = (out, \<sigma>1)" by (cases "body \<sigma>")
  from assms(1) b obtain evs1 where e1: "trace \<sigma>1 = trace \<sigma> @ evs1" "list_all P evs1"
    unfolding emits_def by (metis snd_conv)
  from assms(2) obtain evs2 where
    e2: "trace (snd (handler \<sigma>1)) = trace \<sigma>1 @ evs2" "list_all P evs2"
    unfolding emits_def by blast
  have "try_except body cname cls handler \<sigma> = (out, \<sigma>1)
      \<or> try_except body cname cls handler \<sigma> = (Some (NameError cname), \<sigma>1)
      \<or> try_except body cname cls handler \<sigma> = handler \<sigma>1"
    using b by (auto simp: try_except_def split: option.splits)
  then show "\<exists>evs. trace (snd (try_except body cname cls handler \<sigma>)) = trace \<sigma> @ evs \<and> list_all P evs"
  proof (elim disjE)
    assume "try_except body cname cls handler \<sigma> = handler \<sigma>1"
    with e1 e2 have "trace (snd (try_except body cname cls handler \<sigma>)) = trace \<sigma> @ (evs1 @ evs2) \<and> list_all P (evs1 @ evs2)"
      by simp
    then show ?thesis by blast
  qed (use e1 in auto)
qed

lemmas emits_rules =
  emits_lookup emits_literal emits_print emits_invoke emits_invoke_fs emits_bind
  emits_assign emits_expr emits_import_module emits_import_as emits_from_import
  emits_block_Nil emits_block_Cons emits_try

lemma emits_block: "list_all (emits P) ss \<Longrightarrow> emits P (block ss)"
  by (induction ss) (simp_all add: emits_block_Nil emits_block_Cons)

lemma list_all_drop: "list_all P xs \<Longrightarrow> list_all P (drop k xs)"
  by (auto simp: list_all_iff dest: in_set_dropD)

lemma block_step: "fst (s \<sigma>) = None \<Longrightarrow> block (s # ss) \<sigma> = block ss (snd (s \<sigma>))"
  by (cases "s \<sigma>") simp

lemma block_stop: "fst (s \<sigma>) = Some e \<Longrightarrow> block (s # ss) \<sigma> = s \<sigma>"
  by (cases "s \<sigma>") simp

section \<open>Failures that surface\<close>

lemma uncaught_append: "uncaught (xs @ ys) = uncaught xs @ uncaught ys"
  by (simp add: uncaught_def)

lemma surfaced_Nil: "surfaced out []"
  by (simp add: surfaced_def uncaught_def)

lemma surfaced_None: "surfaced None evs \<longleftrightarrow> uncaught evs = []"
proof
  assume s: "surfaced None evs"
  show "uncaught evs = []"
  proof (rule ccontr)
    assume n: "uncaught evs \<noteq> []"
    with s have u: "uncaught evs = [last evs]" and r: "raised (last evs) = None"
      by (auto simp: surfaced_def)
    from u have "last evs \<in> set (uncaught evs)" by simp
    then have "raised (last evs) \<noteq> None" by (simp add: uncaught_def)
    with r show False by simp
  qed
qed (simp add: surfaced_def)

lemma surfaced_append:
  assumes "uncaught evs1 = []" and "surfaced out evs2"
  shows "surfaced out (evs1 @ evs2)"
  using assms by (auto simp: surfaced_def uncaught_append)

lemma surfaced_call: "surfaced (error_of r) [Called c r]"
proof (cases r)
  case (Inl e)
  then show ?thesis by (simp add: surfaced_def uncaught_def)
next
  case (Inr v)
  then show ?thesis by (simp add: surfaced_def uncaught_def)
qed

lemma surfaces_lookup: "surfaces error_of (lookup x)"
  by (auto simp: surfaces_def lookup_def surfaced_Nil split: option.splits)

lemma surfaces_literal: "surfaces error_of (literal v)"
  by (simp add: surfaces_def literal_def surfaced_Nil)

lemma surfaces_print: "surfaces error_of (print_out args kw)"
  by (simp add: surfaces_def print_out_def surfaced_def uncaught_def)

lemma surfaces_invoke: "surfaces error_of (invoke w f args kw)"
  by (simp add: surfaces_def invoke_def Let_def surfaced_call)

lemma surfaces_invoke_fs: "surfaces error_of (invoke_fs f args kw op)"
  by (auto simp: surfaces_def invoke_fs_def surfaced_call split: prod.splits)

lemma surfaces_bind:
  assumes "surfaces error_of m" and "\<And>a. surfaces error_of (f a)"
  shows "surfaces error_of (bind m f)"
  unfolding surfaces_def
proof
  fix \<sigma>
  obtain r \<sigma>1 where m: "m \<sigma> = (r, \<sigma>1)" by (cases "m \<sigma>")
  from assms(1) m obtain evs1 where
    e1: "trace \<sigma>1 = trace \<sigma> @ evs1" "surfaced (error_of r) evs1"
    unfolding surfaces_def by (metis fst_conv snd_conv)
  show "\<exists>evs. trace (snd (bind m f \<sigma>)) = trace \<sigma> @ evs
          \<and> surfaced (error_of (fst (bind m f \<sigma>))) evs"
  proof (cases r)
    case (Inl e)
    with m e1 show ?thesis by (auto simp: bind_def)
  next
    case (Inr a)
    from assms(2) [of a] obtain evs2 where
      e2: "trace (snd (f a \<sigma>1)) = trace \<sigma>1 @ evs2"
          "surfaced (error_of (fst (f a \<sigma>1))) evs2"
      unfolding surfaces_def by blast
    from Inr e1 have u: "uncaught evs1 = []" by (simp add: surfaced_None)
    from Inr m have "bind m f \<sigma> = f a \<sigma>1" by (simp add: bind_def)
    with e1 e2 surfaced_append [OF u e2(2)]
    have "trace (snd (bind m f \<sigma>)) = trace \<sigma> @ (evs1 @ evs2)
        \<and> surfaced (error_of (fst (bind m f \<sigma>))) (evs1 @ evs2)"
      by simp
    then show ?thesis by blast
  qed
qed

lemma surfaces_assign:
  assumes "surfaces error_of m"
  shows "surfaces (\<lambda>out. out) (assign x m)"
  unfolding surfaces_def
proof
  fix \<sigma>
  obtain r \<sigma>1 where m: "m \<sigma> = (r, \<sigma>1)" by (cases "m \<sigma>")
  from assms m obtain evs where "trace \<sigma>1 = trace \<sigma> @ evs" "surfaced (error_of r) evs"
    unfolding surfaces_def by (metis fst_conv snd_conv)
  with m show "\<exists>evs. trace (snd (assign x m \<sigma>)) = trace \<sigma> @ evs
                \<and> surfaced (fst (assign x m \<sigma>)) evs"
    by (cases r) (auto simp: assign_def)
qed

lemma surfaces_expr:
  assumes "surfaces error_of m"
  shows "surfaces (\<lambda>out. out) (expr_stmt m)"
  unfolding surfaces_def
proof
  fix \<sigma>
  obtain r \<sigma>1 where m: "m \<sigma> = (r, \<sigma>1)" by (cases "m \<sigma>")
  from assms m obtain evs where "trace \<sigma>1 = trace \<sigma> @ evs" "surfaced (error_of r) evs"
    unfolding surfaces_def by (metis fst_conv snd_conv)
  with m show "\<exists>evs. trace (snd (expr_stmt m \<sigma>)) = trace \<sigma> @ evs
                \<and> surfaced (fst (expr_stmt m \<sigma>)) evs"
    by (cases r) (auto simp: expr_stmt_def)
qed

lemma surfaces_import_stmt: "surfaces (\<lambda>out. out) (import_stmt w m names bs)"
  unfolding surfaces_def
proof
  fix \<sigma> :: nbstate
  let ?c = "Call (Import m) names []"
  let ?r = "w (trace \<sigma>) ?c"
  have "trace (snd (import_stmt w m names bs \<sigma>)) = trace \<sigma> @ [Called ?c ?r]
      \<and> fst (import_stmt w m names bs \<sigma>) = error_of ?r"
    by (cases ?r) (simp_all add: import_stmt_def invoke_def Let_def)
  with surfaced_call [of ?r ?c]
  show "\<exists>evs. trace (snd (import_stmt w m names bs \<sigma>)) = trace \<sigma> @ evs
          \<and> surfaced (fst (import_stmt w m names bs \<sigma>)) evs"
    by auto
qed

lemma surfaces_import_module: "surfaces (\<lambda>out. out) (import_module w m)"
  by (simp add: import_module_def surfaces_import_stmt)

lemma surfaces_import_as: "surfaces (\<lambda>out. out) (import_as w m x)"
  by (simp add: import_as_def surfaces_import_stmt)

lemma surfaces_from_import: "surfaces (\<lambda>out. out) (from_import w m xs)"
  by (simp add: from_import_def surfaces_import_stmt)

lemma surfaces_block_Nil: "surfaces (\<lambda>out. out) (block [])"
  by (simp add: surfaces_def surfaced_Nil)

lemma surfaces_block_Cons:
  assumes "surfaces (\<lambda>out. out) s" and "surfaces (\<lambda>out. out) (block ss)"
  shows "surfaces (\<lambda>out. out) (block (s # ss))"
  unfolding surfaces_def
proof
  fix \<sigma>
  obtain out \<sigma>1 where s: "s \<sigma> = (out, \<sigma>1)" by (cases "s \<sigma>")
  from assms(1) s obtain evs1 where e1: "trace \<sigma>1 = trace \<sigma> @ evs1" "surfaced out evs1"
    unfolding surfaces_def by (metis fst_conv snd_conv)
  show "\<exists>evs. trace (snd (block (s # ss) \<sigma>)) = trace \<sigma> @ evs
          \<and> surfaced (fst (block (s # ss) \<sigma>)) evs"
  proof (cases out)
    case (Some e)
    with s e1 show ?thesis by auto
  next
    case None
    from assms(2) obtain evs2 where
      e2: "trace (snd (block ss \<sigma>1)) = trace \<sigma>1 @ evs2"
          "surfaced (fst (block ss \<sigma>1)) evs2"
      unfolding surfaces_def by blast
    from None e1 have u: "uncaught evs1 = []" by (simp add: surfaced_None)
    from None s have "block (s # ss) \<sigma> = block ss \<sigma>1" by simp
    with e1 e2 surfaced_append [OF u e2(2)]
    have "trace (snd (block (s # ss) \<sigma>)) = trace \<sigma> @ (evs1 @ evs2)
        \<and> surfaced (fst (block (s # ss) \<sigma>)) (evs1 @ evs2)"
      by simp
    then show ?thesis by blast
  qed
qed

lemmas surfaces_rules =
  surfaces_lookup surfaces_literal surfaces_print surfaces_invoke surfaces_invoke_fs
  surfaces_bind surfaces_assign surfaces_expr surfaces_import_module surfaces_import_as
  surfaces_from_import surfaces_block_Nil surfaces_block_Cons

lemma surfaces_block: "list_all (surfaces (\<lambda>out. out)) ss \<Longrightarrow> surfaces (\<lambda>out. out) (block ss)"
  by (induction ss) (simp_all add: surfaces_block_Nil surfaces_block_Cons)

section \<open>Names that stay unbound\<close>

lemma keeps_env_lookup: "keeps_env (lookup x)"
  by (auto simp: keeps_env_def lookup_def split: option.splits)

lemma keeps_env_literal: "keeps_env (literal v)"
  by (simp add: keeps_env_def literal_def)

lemma keeps_env_print: "keeps_env (print_out args kw)"
  by (simp add: keeps_env_def print_out_def)

lemma keeps_env_invoke: "keeps_env (invoke w f args kw)"
  by (simp add: keeps_env_def invoke_def Let_def)

lemma keeps_env_invoke_fs: "keeps_env (invoke_fs f args kw op)"
  by (auto simp: keeps_env_def invoke_fs_def split: prod.splits)

lemma keeps_env_bind:
  assumes "keeps_env m" and "\<And>a. keeps_env (f a)"
  shows "keeps_env (bind m f)"
  unfolding keeps_env_def
proof
  fix \<sigma>
  obtain r \<sigma>1 where m: "m \<sigma> = (r, \<sigma>1)" by (cases "m \<sigma>")
  with assms(1) have e1: "env \<sigma>1 = env \<sigma>"
    unfolding keeps_env_def by (metis snd_conv)
  show "env (snd (bind m f \<sigma>)) = env \<sigma>"
  proof (cases r)
    case (Inl e)
    with m e1 show ?thesis by (simp add: bind_def)
  next
    case (Inr a)
    with m have "bind m f \<sigma> = f a \<sigma>1" by (simp add: bind_def)
    with assms(2) [of a] e1 show ?thesis by (simp add: keeps_env_def)
  qed
qed

lemma leaves_unbound_assign:
  assumes "keeps_env m" and "x \<noteq> y"
  shows "leaves_unbound y (assign x m)"
  unfolding leaves_unbound_def
proof (intro allI impI)
  fix \<sigma> :: nbstate assume u: "env \<sigma> y = None"
  obtain r \<sigma>1 where m: "m \<sigma> = (r, \<sigma>1)" by (cases "m \<sigma>")
  with assms(1) have "env \<sigma>1 = env \<sigma>"
    unfolding keeps_env_def by (metis snd_conv)
  with m u assms(2) show "env (snd (assign x m \<sigma>)) y = None"
    by (cases r) (simp_all add: assign_def)
qed

lemma leaves_unbound_expr:
  assumes "keeps_env m"
  shows "leaves_unbound y (expr_stmt m)"
  unfolding leaves_unbound_def
proof (intro allI impI)
  fix \<sigma> :: nbstate assume u: "env \<sigma> y = None"
  obtain r \<sigma>1 where m: "m \<sigma> = (r, \<sigma>1)" by (cases "m \<sigma>")
  with assms have "env \<sigma>1 = env \<sigma>"
    unfolding keeps_env_def by (metis snd_conv)
  with m u show "env (snd (expr_stmt m \<sigma>)) y = None"
    by (cases r) (simp_all add: expr_stmt_def)
qed

lemma bind_names_other: "y \<notin> fst ` set bs \<Longrightarrow> bind_names bs e y = e y"
  by (induction bs arbitrary: e) auto

lemma leaves_unbound_import_stmt:
  assumes "y \<notin> fst ` set bs"
  shows "leaves_unbound y (import_stmt w m names bs)"
  unfolding leaves_unbound_def
proof (intro allI impI)
  fix \<sigma> :: nbstate assume u: "env \<sigma> y = None"
  show "env (snd (import_stmt w m names bs \<sigma>)) y = None"
    using u bind_names_other [OF assms]
    by (cases "w (trace \<sigma>) (Call (Import m) names [])")
       (simp_all add: import_stmt_def invoke_def Let_def)
qed

lemma leaves_unbound_import_module:
  "top_name m \<noteq> y \<Longrightarrow> leaves_unbound y (import_module w m)"
  by (simp add: import_module_def leaves_unbound_import_stmt)

lemma leaves_unbound_import_as: "x \<noteq> y \<Longrightarrow> leaves_unbound y (import_as w m x)"
  by (simp add: import_as_def leaves_unbound_import_stmt)

lemma leaves_unbound_from_import: "y \<notin> set xs \<Longrightarrow> leaves_unbound y (from_import w m xs)"
  by (auto simp: from_import_def intro!: leaves_unbound_import_stmt)

lemma leaves_unbound_block_Nil: "leaves_unbound y (block [])"
  by (simp add: leaves_unbound_def)

lemma leaves_unbound_block_Cons:
  assumes "leaves_unbound y s" and "leaves_unbound y (block ss)"
  shows "leaves_unbound y (block (s # ss))"
  unfolding leaves_unbound_def
proof (intro allI impI)
  fix \<sigma> :: nbstate assume u: "env \<sigma> y = None"
  obtain out \<sigma>1 where s: "s \<sigma> = (out, \<sigma>1)" by (cases "s \<sigma>")
  with assms(1) u have u1: "env \<sigma>1 y = None"
    unfolding leaves_unbound_def by (metis snd_conv)
  show "env (snd (block (s # ss) \<sigma>)) y = None"
  proof (cases out)
    case None
    with s have "block (s # ss) \<sigma> = block ss \<sigma>1" by simp
    with assms(2) u1 show ?thesis by (simp add: leaves_unbound_def)
  next
    case (Some e)
    with s u1 show ?thesis by simp
  qed
qed

lemma leaves_unbound_try:
  assumes "leaves_unbound y body" and "leaves_unbound y handler"
  shows "leaves_unbound y (try_except body cname cls handler)"
  unfolding leaves_unbound_def
proof (intro allI impI)
  fix \<sigma> :: nbstate assume u: "env \<sigma> y = None"
  obtain out \<sigma>1 where b: "body \<sigma> = (out, \<sigma>1)" by (cases "body \<sigma>")
  with assms(1) u have u1: "env \<sigma>1 y = None"
    unfolding leaves_unbound_def by (metis snd_conv)
  with assms(2) have u2: "env (snd (handler \<sigma>1)) y = None"
    by (simp add: leaves_unbound_def)
  from b u1 u2 show "env (snd (try_except body cname cls handler \<sigma>)) y = None"
    by (auto simp: try_except_def split: option.splits)
qed

lemmas unbound_rules =
  keeps_env_lookup keeps_env_literal keeps_env_print keeps_env_invoke keeps_env_invoke_fs
  keeps_env_bind leaves_unbound_assign leaves_unbound_expr leaves_unbound_import_module
  leaves_unbound_import_as leaves_unbound_from_import leaves_unbound_block_Nil
  leaves_unbound_block_Cons leaves_unbound_try

lemma block_append:
  "block (xs @ ys) \<sigma> =
     (case block xs \<sigma> of (None, \<sigma>') \<Rightarrow> block ys \<sigma>' | (Some e, \<sigma>') \<Rightarrow> (Some e, \<sigma>'))"
  by (induction xs arbitrary: \<sigma>) (auto split: prod.splits option.splits)

section \<open>The compute target\<close>

lemmas compute_calls =
  compute_import_def exception_import_def lookup_call_def found_message_def
  creating_message_def provisioning_call_def create_call_def wait_call_def

text \<open>
  C1. Every run of cell 4, in a kernel where \<open>ws\<close> is bound, is one of the following.
  An import fails and the cell ends with that exception. Otherwise the cluster is looked
  up by the name \<open>cpu-cluster\<close>. If the lookup returns, the cell prints that it found
  the target and ends with \<open>compute_target\<close> bound to what the lookup returned: no
  provisioning request, no creation, no wait. If the lookup raises anything but
  \<open>ComputeTargetException\<close>, the cell ends with that exception and nothing more is
  called. If it raises \<open>ComputeTargetException\<close>, the handler prints its message, asks
  for the provisioning configuration, creates the cluster of that name with that
  configuration, binds \<open>compute_target\<close> to the created target and waits for its
  completion; a failure of one of these calls ends the cell with its exception.
\<close>

theorem compute_target_fallback:
  assumes "env \<sigma> ''ws'' = Some wsv" and "cell_compute w \<sigma> = (out, \<sigma>')"
  shows
    "(\<exists>e. new_events \<sigma> \<sigma>' = [Called compute_import (Inl e)] \<and> out = Some e)
   \<or> (\<exists>a e. new_events \<sigma> \<sigma>' =
          [Called compute_import (Inr a), Called exception_import (Inl e)] \<and> out = Some e)
   \<or> (\<exists>a b v. new_events \<sigma> \<sigma>' =
          [Called compute_import (Inr a), Called exception_import (Inr b),
           Called (lookup_call wsv) (Inr v), found_message]
        \<and> out = None \<and> env \<sigma>' ''compute_target'' = Some v)
   \<or> (\<exists>a b e. e \<noteq> ComputeTargetException \<and> new_events \<sigma> \<sigma>' =
          [Called compute_import (Inr a), Called exception_import (Inr b),
           Called (lookup_call wsv) (Inl e)]
        \<and> out = Some e)
   \<or> (\<exists>a b e. new_events \<sigma> \<sigma>' =
          [Called compute_import (Inr a), Called exception_import (Inr b),
           Called (lookup_call wsv) (Inl ComputeTargetException), creating_message,
           Called provisioning_call (Inl e)]
        \<and> out = Some e)
   \<or> (\<exists>a b cfg e. new_events \<sigma> \<sigma>' =
          [Called compute_import (Inr a), Called exception_import (Inr b),
           Called (lookup_call wsv) (Inl ComputeTargetException), creating_message,
           Called provisioning_call (Inr cfg), Called (create_call wsv cfg) (Inl e)]
        \<and> out = Some e)
   \<or> (\<exists>a b cfg t e. new_events \<sigma> \<sigma>' =
          [Called compute_import (Inr a), Called exception_import (Inr b),
           Called (lookup_call wsv) (Inl ComputeTargetException), creating_message,
           Called provisioning_call (Inr cfg), Called (create_call wsv cfg) (Inr t),
           Called (wait_call t) (Inl e)]
        \<and> out = Some e \<and> env \<sigma>' ''compute_target'' = Some t)
   \<or> (\<exists>a b cfg t d. new_events \<sigma> \<sigma>' =
          [Called compute_import (Inr a), Called exception_import (Inr b),
           Called (lookup_call wsv) (Inl ComputeTargetException), creating_message,
           Called provisioning_call (Inr cfg), Called (create_call wsv cfg) (Inr t),
           Called (wait_call t) (Inr d)]
        \<and> out = None \<and> env \<sigma>' ''compute_target'' = Some t)"
  using assms
  by (auto simp: cell_defs stmt_eval res_cases new_events_def compute_calls
           simp del: block.simps(2) split: sum.splits option.splits if_splits)

theorem compute_target_fallback_witness:
  "(\<exists>a b v. new_events ws_state (snd (cell_compute world_ok ws_state)) =
       [Called compute_import (Inr a), Called exception_import (Inr b),
        Called (lookup_call (Obj 0)) (Inr v), found_message]
     \<and> env (snd (cell_compute world_ok ws_state)) ''compute_target'' = Some v)
   \<and> (\<exists>a b cfg t d. new_events ws_state (snd (cell_compute world_no_cluster ws_state)) =
       [Called compute_import (Inr a), Called exception_import (Inr b),
        Called (lookup_call (Obj 0)) (Inl ComputeTargetException), creating_message,
        Called provisioning_call (Inr cfg), Called (create_call (Obj 0) cfg) (Inr t),
        Called (wait_call t) (Inr d)]
     \<and> env (snd (cell_compute world_no_cluster ws_state)) ''compute_target'' = Some t)"
proof -
  have ws: "env ws_state ''ws'' = Some (Obj 0)"
    by code_simp
  have found: "fst (cell_compute world_ok ws_state) = None"
    and returned: "new_events ws_state (snd (cell_compute world_ok ws_state)) ! 2
                     = Called (lookup_call (Obj 0)) (Inr (Obj 2))"
    by code_simp+
  have created: "fst (cell_compute world_no_cluster ws_state) = None"
    and absent: "new_events ws_state (snd (cell_compute world_no_cluster ws_state)) ! 2
                   = Called (lookup_call (Obj 0)) (Inl ComputeTargetException)"
    by code_simp+
  from compute_target_fallback
         [OF ws run_ok [of "cell_compute world_ok" ws_state, OF found]] returned
  have existing:
    "\<exists>a b v. new_events ws_state (snd (cell_compute world_ok ws_state)) =
       [Called compute_import (Inr a), Called exception_import (Inr b),
        Called (lookup_call (Obj 0)) (Inr v), found_message]
     \<and> env (snd (cell_compute world_ok ws_state)) ''compute_target'' = Some v"
    by auto
  from compute_target_fallback
         [OF ws run_ok [of "cell_compute world_no_cluster" ws_state, OF created]] absent
  have new:
    "\<exists>a b cfg t d. new_events ws_state (snd (cell_compute world_no_cluster ws_state)) =
       [Called compute_import (Inr a), Called exception_import (Inr b),
        Called (lookup_call (Obj 0)) (Inl ComputeTargetException), creating_message,
        Called provisioning_call (Inr cfg), Called (create_call (Obj 0) cfg) (Inr t),
        Called (wait_call t) (Inr d)]
     \<and> env (snd (cell_compute world_no_cluster ws_state)) ''compute_target'' = Some t"
    by auto
  from existing new show ?thesis
    by blast
qed


section \<open>The datastore\<close>

lemma emits_cells: "list_all (emits (\<lambda>ev. \<not> is_method ''upload'' ev)) (notebook w)"
  apply (simp add: notebook_def)
  apply (unfold cell_defs)
  apply (intro conjI emits_rules; simp)
  done

lemma datastore_cell:
  assumes "env \<sigma> ''ws'' = Some wsv"
  shows "trace (snd (cell_datastore w \<sigma>)) =
           trace \<sigma> @ [Called (datastore_call wsv) (w (trace \<sigma>) (datastore_call wsv))]"
    and "fst (cell_datastore w \<sigma>) = error_of (w (trace \<sigma>) (datastore_call wsv))"
    and "w (trace \<sigma>) (datastore_call wsv) = Inr v \<Longrightarrow>
           env (snd (cell_datastore w \<sigma>)) ''data_dir'' = Some v"
  using assms
  by (auto simp: cell_defs stmt_eval res_cases datastore_call_def
           simp del: block.simps(2) split: sum.splits option.splits)

lemma from_datastore_on:
  assumes "env \<sigma> ''ws'' = Some wsv"
  shows "\<exists>rest. trace (snd (block (drop 2 (notebook w)) \<sigma>)) =
           trace \<sigma> @ Called (datastore_call wsv) (w (trace \<sigma>) (datastore_call wsv)) # rest
         \<and> list_all (\<lambda>ev. \<not> is_method ''upload'' ev) rest
         \<and> (fst (cell_datastore w \<sigma>) \<noteq> None \<longrightarrow> rest = [])"
proof -
  let ?\<sigma>1 = "snd (cell_datastore w \<sigma>)"
  have cells: "drop 2 (notebook w) = cell_datastore w # drop 3 (notebook w)"
    by (simp add: notebook_def)
  note t1 = datastore_cell(1) [OF assms, of w]
  show ?thesis
  proof (cases "fst (cell_datastore w \<sigma>)")
    case None
    have "emits (\<lambda>ev. \<not> is_method ''upload'' ev) (block (drop 3 (notebook w)))"
      by (rule emits_block [OF list_all_drop [OF emits_cells]])
    then obtain evs where
      e: "trace (snd (block (drop 3 (notebook w)) ?\<sigma>1)) = trace ?\<sigma>1 @ evs"
         "list_all (\<lambda>ev. \<not> is_method ''upload'' ev) evs"
      unfolding emits_def by blast
    have "block (drop 2 (notebook w)) \<sigma> = block (drop 3 (notebook w)) ?\<sigma>1"
      by (simp only: cells block_step [of "cell_datastore w" \<sigma>, OF None])
    with e t1 None show ?thesis
      by simp
  next
    case (Some e)
    have "block (drop 2 (notebook w)) \<sigma> = cell_datastore w \<sigma>"
      by (simp only: cells block_stop [of "cell_datastore w" \<sigma>, OF Some])
    with t1 show ?thesis
      by simp
  qed
qed

lemma comes_first_none: "list_all (\<lambda>ev. \<not> Q ev) xs \<Longrightarrow> comes_first P Q xs"
  by (induction xs) simp_all

lemma comes_first_append:
  "list_all (\<lambda>ev. \<not> Q ev) xs \<Longrightarrow> comes_first P Q ys \<Longrightarrow> comes_first P Q (xs @ ys)"
  by (induction xs) simp_all

lemma no_launch_before_datastore:
  "emits (\<lambda>ev. \<not> launches ev) (block (take 2 (notebook w)))"
  apply (simp add: notebook_def)
  apply (unfold cell_defs)
  apply (intro emits_rules; simp add: launches_def)
  done

lemma datastore_cell_unbound:
  assumes "env \<sigma> ''ws'' = None"
  shows "block (drop 2 (notebook w)) \<sigma> = (Some (NameError ''ws''), \<sigma>)"
  using assms
  by (simp add: notebook_def cell_defs stmt_eval del: block.simps(2))

lemma datastore_before_launch:
  "\<exists>evs. trace (snd (block (notebook w) \<sigma>)) = trace \<sigma> @ evs
         \<and> comes_first (is_method ''get_default_datastore'') launches evs"
proof -
  let ?pre = "take 2 (notebook w)"
  have run: "block (notebook w) \<sigma> =
      (case block ?pre \<sigma> of (None, \<sigma>') \<Rightarrow> block (drop 2 (notebook w)) \<sigma>'
       | (Some e, \<sigma>') \<Rightarrow> (Some e, \<sigma>'))"
    using block_append [of ?pre "drop 2 (notebook w)" \<sigma>] by simp
  obtain out1 \<sigma>1 where pre: "block ?pre \<sigma> = (out1, \<sigma>1)"
    by (cases "block ?pre \<sigma>")
  from no_launch_before_datastore [of w] pre obtain evs1 where
    e1: "trace \<sigma>1 = trace \<sigma> @ evs1" "list_all (\<lambda>ev. \<not> launches ev) evs1"
    unfolding emits_def by (metis snd_conv)
  show ?thesis
  proof (cases out1)
    case (Some e)
    with run pre e1 comes_first_none [OF e1(2)] show ?thesis
      by auto
  next
    case None
    with run pre have rest: "block (notebook w) \<sigma> = block (drop 2 (notebook w)) \<sigma>1"
      by simp
    show ?thesis
    proof (cases "env \<sigma>1 ''ws''")
      case None
      from datastore_cell_unbound [OF None, of w] rest e1 comes_first_none [OF e1(2)]
      show ?thesis by auto
    next
      case (Some wsv)
      from from_datastore_on [OF Some, of w] obtain more where
        t: "trace (snd (block (drop 2 (notebook w)) \<sigma>1)) =
              trace \<sigma>1 @ Called (datastore_call wsv) (w (trace \<sigma>1) (datastore_call wsv)) # more"
        by blast
      have "comes_first (is_method ''get_default_datastore'') launches
              (Called (datastore_call wsv) (w (trace \<sigma>1) (datastore_call wsv)) # more)"
        by (simp add: datastore_call_def)
      from comes_first_append [OF e1(2) this] t e1(1) rest show ?thesis
        by auto
    qed
  qed
qed

text \<open>
  C3, as the code has it. Cell 3 asks the workspace for its default datastore and binds
  \<open>data_dir\<close> to it, and that is all it does: the upload line is a comment. From cell 3
  on, that request is the first thing that happens (if it fails, nothing follows), and
  nothing that follows is an \<open>upload\<close> call. In a run of the whole notebook the request
  comes before the estimator of the training script is built and before anything is
  submitted. No execution of the notebook, from any cell on, in any kernel state and on
  any platform, issues an \<open>upload\<close> call.
\<close>

theorem no_upload_issued:
  assumes "env \<sigma> ''ws'' = Some wsv"
  shows "new_events \<sigma> (snd (cell_datastore w \<sigma>)) =
           [Called (datastore_call wsv) (w (trace \<sigma>) (datastore_call wsv))]
       \<and> fst (cell_datastore w \<sigma>) = error_of (w (trace \<sigma>) (datastore_call wsv))
       \<and> (\<forall>v. w (trace \<sigma>) (datastore_call wsv) = Inr v \<longrightarrow>
              env (snd (cell_datastore w \<sigma>)) ''data_dir'' = Some v)
       \<and> (\<exists>rest. new_events \<sigma> (snd (block (drop 2 (notebook w)) \<sigma>)) =
              Called (datastore_call wsv) (w (trace \<sigma>) (datastore_call wsv)) # rest
            \<and> list_all (\<lambda>ev. \<not> is_method ''upload'' ev) rest
            \<and> (fst (cell_datastore w \<sigma>) \<noteq> None \<longrightarrow> rest = []))
       \<and> (\<forall>\<sigma>0. \<exists>evs. trace (snd (block (notebook w) \<sigma>0)) = trace \<sigma>0 @ evs
                     \<and> comes_first (is_method ''get_default_datastore'') launches evs)
       \<and> (\<forall>k \<sigma>0. \<exists>evs. trace (snd (block (drop k (notebook w)) \<sigma>0)) = trace \<sigma>0 @ evs
                       \<and> list_all (\<lambda>ev. \<not> is_method ''upload'' ev) evs)"
proof -
  have "emits (\<lambda>ev. \<not> is_method ''upload'' ev) (block (drop k (notebook w)))" for k
    by (rule emits_block [OF list_all_drop [OF emits_cells]])
  then have anywhere:
    "\<forall>k \<sigma>0. \<exists>evs. trace (snd (block (drop k (notebook w)) \<sigma>0)) = trace \<sigma>0 @ evs
               \<and> list_all (\<lambda>ev. \<not> is_method ''upload'' ev) evs"
    by (simp add: emits_def)
  have before:
    "\<forall>\<sigma>0. \<exists>evs. trace (snd (block (notebook w) \<sigma>0)) = trace \<sigma>0 @ evs
             \<and> comes_first (is_method ''get_default_datastore'') launches evs"
    using datastore_before_launch [of w] by blast
  have alone: "new_events \<sigma> (snd (cell_datastore w \<sigma>)) =
          [Called (datastore_call wsv) (w (trace \<sigma>) (datastore_call wsv))]"
    by (simp add: new_events_def datastore_cell(1) [OF assms])
  from from_datastore_on [OF assms, of w]
  have onward: "\<exists>rest. new_events \<sigma> (snd (block (drop 2 (notebook w)) \<sigma>)) =
              Called (datastore_call wsv) (w (trace \<sigma>) (datastore_call wsv)) # rest
            \<and> list_all (\<lambda>ev. \<not> is_method ''upload'' ev) rest
            \<and> (fst (cell_datastore w \<sigma>) \<noteq> None \<longrightarrow> rest = [])"
    by (auto simp: new_events_def)
  from alone datastore_cell(2,3) [OF assms, of w] onward before anywhere
  show ?thesis
    by blast
qed

theorem no_upload_issued_witness:
  "new_events after_workspace (snd (cell_datastore world_ok after_workspace)) =
     [Called (datastore_call (Obj 20)) (Inr (Obj 22))]
   \<and> env (snd (cell_datastore world_ok after_workspace)) ''data_dir'' = Some (Obj 22)
   \<and> (\<exists>rest. new_events after_workspace
                (snd (block (drop 2 (notebook world_ok)) after_workspace)) =
              Called (datastore_call (Obj 20)) (Inr (Obj 22)) # rest
            \<and> list_all (\<lambda>ev. \<not> is_method ''upload'' ev) rest)
   \<and> fst (block (drop 2 (notebook world_ok)) after_workspace) = None
   \<and> list_ex launches
        (new_events after_workspace (snd (block (drop 2 (notebook world_ok)) after_workspace)))
   \<and> list_ex (is_method ''submit'')
        (new_events after_workspace (snd (block (drop 2 (notebook world_ok)) after_workspace)))"
proof -
  have ws: "env after_workspace ''ws'' = Some (Obj 20)"
    by code_simp
  have r: "world_ok (trace after_workspace) (datastore_call (Obj 20)) = Inr (Obj 22)"
    by code_simp
  have whole: "fst (block (drop 2 (notebook world_ok)) after_workspace) = None"
    and est: "list_ex launches
        (new_events after_workspace (snd (block (drop 2 (notebook world_ok)) after_workspace)))"
    and sub: "list_ex (is_method ''submit'')
        (new_events after_workspace (snd (block (drop 2 (notebook world_ok)) after_workspace)))"
    by code_simp+
  from no_upload_issued [OF ws, of world_ok]
  have "new_events after_workspace (snd (cell_datastore world_ok after_workspace)) =
          [Called (datastore_call (Obj 20)) (Inr (Obj 22))]"
    and "env (snd (cell_datastore world_ok after_workspace)) ''data_dir'' = Some (Obj 22)"
    and "\<exists>rest. new_events after_workspace
                (snd (block (drop 2 (notebook world_ok)) after_workspace)) =
              Called (datastore_call (Obj 20)) (Inr (Obj 22)) # rest
            \<and> list_all (\<lambda>ev. \<not> is_method ''upload'' ev) rest"
    by (auto simp: r)
  with whole est sub show ?thesis
    by blast
qed

text \<open>
  The claim as stated fails: on a platform where every call succeeds the notebook gets
  the datastore, builds the estimator and (in a kernel where \<open>pipeline\<close> is bound) runs
  to its end, and no \<open>upload\<close> call is among its events; the same holds for the run in
  a fresh kernel.
\<close>

theorem upload_claim_counterexample:
  "fst (block (notebook world_ok) stale_kernel) = None
   \<and> list_ex (is_method ''get_default_datastore'')
        (trace (snd (block (notebook world_ok) stale_kernel)))
   \<and> list_ex (is_global ''PyTorch'') (trace (snd (block (notebook world_ok) stale_kernel)))
   \<and> \<not> list_ex (is_method ''upload'') (trace (snd (block (notebook world_ok) stale_kernel)))
   \<and> list_ex (is_global ''PyTorch'') (trace (snd (run_all world_ok fs_script)))
   \<and> \<not> list_ex (is_method ''upload'') (trace (snd (run_all world_ok fs_script)))"
  by code_simp

section \<open>The sweep configuration\<close>

text \<open>
  C4. When cell 9 ends normally it has issued, in this order: the import,
  \<open>uniform(0.0005, 0.005)\<close>, \<open>uniform(0.9, 0.99)\<close>, \<open>RandomParameterSampling\<close> of the
  dictionary that maps \<open>learning_rate\<close> and \<open>momentum\<close> to the two distributions,
  \<open>BanditPolicy(slack_factor=0.15, evaluation_interval=1, delay_evaluation=10)\<close>, and
  \<open>HyperDriveConfig\<close> with the estimator, that sampling, that policy, the primary metric
  \<open>best_val_acc\<close> with goal \<open>MAXIMIZE\<close>, \<open>max_total_runs=8\<close> and
  \<open>max_concurrent_runs=4\<close>; \<open>hd_config\<close> is bound to what the last call returned.
\<close>

theorem sweep_payload:
  assumes "cell_hyperdrive_config w \<sigma> = (None, \<sigma>')" and "env \<sigma> ''est'' = Some est"
  shows "\<exists>i lr mo ps pol cfg.
           new_events \<sigma> \<sigma>' =
             [Called (Call (Import ''azureml.train.hyperdrive'')
                        [Str ''RandomParameterSampling'', Str ''BanditPolicy'',
                         Str ''HyperDriveConfig'', Str ''uniform'', Str ''PrimaryMetricGoal''] [])
                (Inr i),
              Called (Call (Global ''uniform'') [FltV (5 / 10000), FltV (5 / 1000)] []) (Inr lr),
              Called (Call (Global ''uniform'') [FltV (9 / 10), FltV (99 / 100)] []) (Inr mo),
              Called (Call (Global ''RandomParameterSampling'')
                        [Dict [(''learning_rate'', lr), (''momentum'', mo)]] []) (Inr ps),
              Called (Call (Global ''BanditPolicy'') []
                        [(''slack_factor'', FltV (15 / 100)), (''evaluation_interval'', IntV 1),
                         (''delay_evaluation'', IntV 10)]) (Inr pol),
              Called (Call (Global ''HyperDriveConfig'') []
                        [(''estimator'', est), (''hyperparameter_sampling'', ps),
                         (''policy'', pol), (''primary_metric_name'', Str ''best_val_acc''),
                         (''primary_metric_goal'',
                            Attr (Member ''azureml.train.hyperdrive'' ''PrimaryMetricGoal'')
                              ''MAXIMIZE''),
                         (''max_total_runs'', IntV 8), (''max_concurrent_runs'', IntV 4)])
                (Inr cfg)]
         \<and> env \<sigma>' ''hd_config'' = Some cfg"
  using assms
  by (auto simp: cell_defs stmt_eval res_cases new_events_def
           simp del: block.simps(2) split: sum.splits option.splits if_splits)

theorem sweep_payload_witness:
  "\<exists>i lr mo ps pol cfg.
     new_events est_state (snd (cell_hyperdrive_config world_ok est_state)) =
       [Called (Call (Import ''azureml.train.hyperdrive'')
                  [Str ''RandomParameterSampling'', Str ''BanditPolicy'',
                   Str ''HyperDriveConfig'', Str ''uniform'', Str ''PrimaryMetricGoal''] [])
          (Inr i),
        Called (Call (Global ''uniform'') [FltV (5 / 10000), FltV (5 / 1000)] []) (Inr lr),
        Called (Call (Global ''uniform'') [FltV (9 / 10), FltV (99 / 100)] []) (Inr mo),
        Called (Call (Global ''RandomParameterSampling'')
                  [Dict [(''learning_rate'', lr), (''momentum'', mo)]] []) (Inr ps),
        Called (Call (Global ''BanditPolicy'') []
                  [(''slack_factor'', FltV (15 / 100)), (''evaluation_interval'', IntV 1),
                   (''delay_evaluation'', IntV 10)]) (Inr pol),
        Called (Call (Global ''HyperDriveConfig'') []
                  [(''estimator'', Obj 1), (''hyperparameter_sampling'', ps),
                   (''policy'', pol), (''primary_metric_name'', Str ''best_val_acc''),
                   (''primary_metric_goal'',
                      Attr (Member ''azureml.train.hyperdrive'' ''PrimaryMetricGoal'')
                        ''MAXIMIZE''),
                   (''max_total_runs'', IntV 8), (''max_concurrent_runs'', IntV 4)])
          (Inr cfg)]
   \<and> env (snd (cell_hyperdrive_config world_ok est_state)) ''hd_config'' = Some cfg"
proof -
  have ok: "fst (cell_hyperdrive_config world_ok est_state) = None"
    by code_simp
  have est: "env est_state ''est'' = Some (Obj 1)"
    by code_simp
  show ?thesis
    by (rule sweep_payload
          [OF run_ok [of "cell_hyperdrive_config world_ok" est_state, OF ok] est])
qed

section \<open>Submission and best run\<close>

text \<open>
  C2. In a fresh kernel, on a platform where every call succeeds, running the cells in
  order builds the pipeline and binds it to \<open>pipeline1\<close>; the submission statement then
  reads the name \<open>pipeline\<close>, which nothing has bound. The run ends there with
  \<open>NameError\<close>, and no \<open>submit\<close> call and no best-run query is ever issued.
\<close>

theorem submit_reads_unbound_name:
  "fst (run_all world_ok fs_script) = Some (NameError ''pipeline'')
   \<and> list_ex (is_global ''Pipeline'') (trace (snd (run_all world_ok fs_script)))
   \<and> env (snd (run_all world_ok fs_script)) ''pipeline1'' = Some (Obj 44)
   \<and> env (snd (run_all world_ok fs_script)) ''pipeline'' = None
   \<and> \<not> list_ex (is_method ''submit'') (trace (snd (run_all world_ok fs_script)))
   \<and> \<not> list_ex (is_method ''get_best_run_by_primary_metric'')
         (trace (snd (run_all world_ok fs_script)))"
  by code_simp

lemma before_submit_unbound:
  "leaves_unbound ''pipeline'' (block (take 10 (notebook w)))"
  apply (simp add: notebook_def)
  apply (unfold cell_defs)
  apply (intro unbound_rules; simp add: top_name_def)
  done

lemma before_submit_emits:
  "emits (\<lambda>ev. \<not> is_method ''submit'' ev) (block (take 10 (notebook w)))"
  apply (simp add: notebook_def)
  apply (unfold cell_defs)
  apply (intro emits_rules; simp)
  done

lemma submit_cell_unbound:
  assumes "env \<sigma> ''pipeline'' = None" and "cell_submit w \<sigma> = (out, \<sigma>')"
  shows "out \<noteq> None \<and> trace \<sigma>' = trace \<sigma> @ new_events \<sigma> \<sigma>'
       \<and> list_all (\<lambda>ev. \<not> is_method ''submit'' ev) (new_events \<sigma> \<sigma>')"
  using assms
  by (auto simp: cell_defs stmt_eval res_cases new_events_def
           simp del: block.simps(2) split: sum.splits option.splits if_splits)

text \<open>
  The same on every platform and in every working directory: a run in a fresh kernel
  never ends normally and never issues \<open>submit\<close>.
\<close>

lemma fresh_run_never_submits:
  "fst (run_all w fs) \<noteq> None
   \<and> \<not> list_ex (is_method ''submit'') (trace (snd (run_all w fs)))"
proof -
  let ?pre = "take 10 (notebook w)"
  let ?rest = "drop 11 (notebook w)"
  have cells: "notebook w = ?pre @ (cell_submit w # ?rest)"
    by (simp add: notebook_def)
  obtain out1 \<sigma>1 where pre: "block ?pre (fresh fs) = (out1, \<sigma>1)"
    by (cases "block ?pre (fresh fs)")
  have "env (fresh fs) ''pipeline'' = None"
    by (simp add: fresh_def)
  with before_submit_unbound [of w] pre have u1: "env \<sigma>1 ''pipeline'' = None"
    unfolding leaves_unbound_def by (metis snd_conv)
  have "trace (fresh fs) = []"
    by (simp add: fresh_def)
  with before_submit_emits [of w] pre
  have e1: "list_all (\<lambda>ev. \<not> is_method ''submit'' ev) (trace \<sigma>1)"
    unfolding emits_def by (metis append_Nil snd_conv)
  have run: "run_all w fs =
      (case (out1, \<sigma>1) of (None, \<sigma>') \<Rightarrow> block (cell_submit w # ?rest) \<sigma>'
       | (Some e, \<sigma>') \<Rightarrow> (Some e, \<sigma>'))"
    unfolding run_all_def by (subst cells) (simp only: block_append pre)
  show ?thesis
  proof (cases out1)
    case (Some e)
    with run e1 show ?thesis by (simp add: list_ex_iff list_all_iff)
  next
    case None
    obtain out2 \<sigma>2 where sub: "cell_submit w \<sigma>1 = (out2, \<sigma>2)"
      by (cases "cell_submit w \<sigma>1")
    from submit_cell_unbound [OF u1 sub] obtain e where
      o2: "out2 = Some e" and t2: "trace \<sigma>2 = trace \<sigma>1 @ new_events \<sigma>1 \<sigma>2"
      and n2: "list_all (\<lambda>ev. \<not> is_method ''submit'' ev) (new_events \<sigma>1 \<sigma>2)"
      by auto
    from None run sub o2 have "run_all w fs = (Some e, \<sigma>2)" by simp
    with t2 n2 e1 show ?thesis by (auto simp: list_ex_iff list_all_iff)
  qed
qed

lemma submit_then_query:
  assumes "block [cell_submit w, cell_best_run w] \<sigma> = (out, \<sigma>')"
  shows "\<not> waits_after_submit (new_events \<sigma> \<sigma>')
       \<and> \<not> list_ex (is_method ''wait_for_completion'') (new_events \<sigma> \<sigma>')"
  using assms
  by (auto simp: cell_defs stmt_eval res_cases new_events_def waits_after_submit_def
           after_submit_def
           simp del: block.simps(2) split: sum.splits option.splits if_splits)

lemma submit_to_download:
  assumes "block [cell_submit w, cell_best_run w, cell_download w] \<sigma> = (None, \<sigma>')"
    and "env \<sigma> ''ws'' = Some wsv" and "env \<sigma> ''hd_step'' = Some step"
    and "env \<sigma> ''pipeline'' = Some p" and "env \<sigma> ''hd_step_name'' = Some n"
  shows "\<exists>ex pl prun steps srun hd best i dl model.
           new_events \<sigma> \<sigma>' =
             [Called (Call (Global ''Experiment'') []
                        [(''workspace'', wsv), (''name'', Str ''Hyperdrive_sample'')]) (Inr ex),
              Called (Call (Global ''Pipeline'') []
                        [(''workspace'', wsv), (''steps'', Lst [step])]) (Inr pl),
              Called (Call (Method ex ''submit'') [p] []) (Inr prun),
              Called (Call (Method prun ''find_step_run'') [n] []) (Inr steps),
              Called (Call (Method steps ''__getitem__'') [IntV 0] []) (Inr srun),
              Called (Call (Global ''HyperDriveStepRun'') [] [(''step_run'', srun)]) (Inr hd),
              Called (Call (Method hd ''get_best_run_by_primary_metric'') [] []) (Inr best),
              Called (Call (Import ''torch'') [] []) (Inr i),
              Called (Call (Method best ''download_file'') [Str ''outputs/model.pt'']
                        [(''output_file_path'', Str ''model.pt'')]) (Inr dl),
              Called (Call (Global ''torch.load'') [Str ''model.pt''] []) (Inr model)]
         \<and> env \<sigma>' ''pipeline_run'' = Some prun \<and> env \<sigma>' ''best_run'' = Some best"
  using assms
  by (auto simp: cell_defs stmt_eval res_cases new_events_def
           simp del: block.simps(2) split: sum.splits option.splits if_splits)

text \<open>
  C6, as the code has it. When the submission cell, the best-run cell and the download
  cell end normally, they have issued exactly these calls, in this order: the
  experiment, the pipeline, one \<open>submit\<close>, then at once \<open>find_step_run\<close> of the step name
  on the run that \<open>submit\<close> returned, its element 0, \<open>HyperDriveStepRun\<close>,
  \<open>get_best_run_by_primary_metric\<close>, and the download and load of the model. And
  whatever the platform answers and whatever the kernel holds, the submission cell and
  the best-run cell issue no call between \<open>submit\<close> and \<open>find_step_run\<close> and no
  \<open>wait_for_completion\<close>: the notebook itself neither waits nor polls for the pipeline
  run.
\<close>

theorem no_wait_after_submit:
  assumes "block [cell_submit w, cell_best_run w, cell_download w] \<sigma> = (None, \<sigma>')"
    and "env \<sigma> ''ws'' = Some wsv" and "env \<sigma> ''hd_step'' = Some step"
    and "env \<sigma> ''pipeline'' = Some p" and "env \<sigma> ''hd_step_name'' = Some n"
  shows "(\<exists>ex pl prun steps srun hd best i dl model.
           new_events \<sigma> \<sigma>' =
             [Called (Call (Global ''Experiment'') []
                        [(''workspace'', wsv), (''name'', Str ''Hyperdrive_sample'')]) (Inr ex),
              Called (Call (Global ''Pipeline'') []
                        [(''workspace'', wsv), (''steps'', Lst [step])]) (Inr pl),
              Called (Call (Method ex ''submit'') [p] []) (Inr prun),
              Called (Call (Method prun ''find_step_run'') [n] []) (Inr steps),
              Called (Call (Method steps ''__getitem__'') [IntV 0] []) (Inr srun),
              Called (Call (Global ''HyperDriveStepRun'') [] [(''step_run'', srun)]) (Inr hd),
              Called (Call (Method hd ''get_best_run_by_primary_metric'') [] []) (Inr best),
              Called (Call (Import ''torch'') [] []) (Inr i),
              Called (Call (Method best ''download_file'') [Str ''outputs/model.pt'']
                        [(''output_file_path'', Str ''model.pt'')]) (Inr dl),
              Called (Call (Global ''torch.load'') [Str ''model.pt''] []) (Inr model)]
         \<and> env \<sigma>' ''pipeline_run'' = Some prun \<and> env \<sigma>' ''best_run'' = Some best)
       \<and> (\<forall>w0 \<sigma>0.
            \<not> waits_after_submit
                (new_events \<sigma>0 (snd (block [cell_submit w0, cell_best_run w0] \<sigma>0)))
          \<and> \<not> list_ex (is_method ''wait_for_completion'')
                (new_events \<sigma>0 (snd (block [cell_submit w0, cell_best_run w0] \<sigma>0))))"
proof -
  have "\<not> waits_after_submit
            (new_events \<sigma>0 (snd (block [cell_submit w0, cell_best_run w0] \<sigma>0)))
      \<and> \<not> list_ex (is_method ''wait_for_completion'')
            (new_events \<sigma>0 (snd (block [cell_submit w0, cell_best_run w0] \<sigma>0)))" for w0 \<sigma>0
    by (rule submit_then_query
          [OF run_pair [of "block [cell_submit w0, cell_best_run w0]" \<sigma>0]])
  with submit_to_download [OF assms] show ?thesis
    by blast
qed

theorem no_wait_after_submit_witness:
  "\<exists>ex pl prun steps srun hd best i dl model.
     new_events submit_ready
       (snd (block [cell_submit world_ok, cell_best_run world_ok, cell_download world_ok]
               submit_ready)) =
       [Called (Call (Global ''Experiment'') []
                  [(''workspace'', Obj 20), (''name'', Str ''Hyperdrive_sample'')]) (Inr ex),
        Called (Call (Global ''Pipeline'') []
                  [(''workspace'', Obj 20), (''steps'', Lst [Obj 42])]) (Inr pl),
        Called (Call (Method ex ''submit'') [Obj 99] []) (Inr prun),
        Called (Call (Method prun ''find_step_run'') [Str ''Hyperdrive_step''] []) (Inr steps),
        Called (Call (Method steps ''__getitem__'') [IntV 0] []) (Inr srun),
        Called (Call (Global ''HyperDriveStepRun'') [] [(''step_run'', srun)]) (Inr hd),
        Called (Call (Method hd ''get_best_run_by_primary_metric'') [] []) (Inr best),
        Called (Call (Import ''torch'') [] []) (Inr i),
        Called (Call (Method best ''download_file'') [Str ''outputs/model.pt'']
                  [(''output_file_path'', Str ''model.pt'')]) (Inr dl),
        Called (Call (Global ''torch.load'') [Str ''model.pt''] []) (Inr model)]
   \<and> env (snd (block [cell_submit world_ok, cell_best_run world_ok, cell_download world_ok]
                  submit_ready)) ''pipeline_run'' = Some prun
   \<and> env (snd (block [cell_submit world_ok, cell_best_run world_ok, cell_download world_ok]
                  submit_ready)) ''best_run'' = Some best"
proof -
  have ok: "fst (block [cell_submit world_ok, cell_best_run world_ok, cell_download world_ok]
                   submit_ready) = None"
    by code_simp
  have ws: "env submit_ready ''ws'' = Some (Obj 20)"
    and step: "env submit_ready ''hd_step'' = Some (Obj 42)"
    and p: "env submit_ready ''pipeline'' = Some (Obj 99)"
    and n: "env submit_ready ''hd_step_name'' = Some (Str ''Hyperdrive_step'')"
    by code_simp+
  from no_wait_after_submit
         [OF run_ok [of "block [cell_submit world_ok, cell_best_run world_ok,
                                cell_download world_ok]" submit_ready, OF ok]
             ws step p n]
  show ?thesis
    by blast
qed

text \<open>
  The claim as stated fails: in a kernel where \<open>pipeline\<close> is bound, on a platform where
  every call succeeds, the notebook runs to its end, submits, and asks for the step run
  and the best run with nothing in between.
\<close>

theorem wait_claim_counterexample:
  "fst (block (notebook world_ok) stale_kernel) = None
   \<and> list_ex (is_method ''submit'') (trace (snd (block (notebook world_ok) stale_kernel)))
   \<and> list_ex (is_method ''get_best_run_by_primary_metric'')
        (trace (snd (block (notebook world_ok) stale_kernel)))
   \<and> \<not> waits_after_submit (trace (snd (block (notebook world_ok) stale_kernel)))
   \<and> \<not> list_ex (is_method ''wait_for_completion'')
        (trace (snd (block (notebook world_ok) stale_kernel)))"
  by code_simp

section \<open>After the sweep\<close>

text \<open>
  C7. When the four cells after best-run selection end normally, they have issued, in
  this order: the download of \<open>outputs/model.pt\<close> from the best run, \<open>torch.load\<close> of
  the downloaded file, \<open>torch.randn(1, 3, 224, 224)\<close>, \<open>torch.onnx.export\<close> of the
  loaded model with that dummy input to \<open>model.onnx\<close>, \<open>onnx.load\<close> of that file,
  \<open>onnx.checker.check_model\<close> of the loaded graph, and \<open>Model.register\<close> of
  \<open>model.onnx\<close> under the name \<open>onnx-birds\<close> (with the imports in between).
\<close>

theorem model_handling_order:
  assumes "block [cell_download w, cell_export w, cell_check w, cell_register w] \<sigma> = (None, \<sigma>')"
    and "env \<sigma> ''best_run'' = Some best" and "env \<sigma> ''ws'' = Some wsv"
  shows "\<exists>i1 dl model i2 dummy ex i3 graph ck i4 reg.
           new_events \<sigma> \<sigma>' =
             [Called (Call (Import ''torch'') [] []) (Inr i1),
              Called (Call (Method best ''download_file'') [Str ''outputs/model.pt'']
                        [(''output_file_path'', Str ''model.pt'')]) (Inr dl),
              Called (Call (Global ''torch.load'') [Str ''model.pt''] []) (Inr model),
              Called (Call (Import ''torch.onnx'') [] []) (Inr i2),
              Called (Call (Global ''torch.randn'') [IntV 1, IntV 3, IntV 224, IntV 224] [])
                (Inr dummy),
              Called (Call (Global ''torch.onnx.export'') [model, dummy, Str ''model.onnx''] [])
                (Inr ex),
              Called (Call (Import ''onnx'') [] []) (Inr i3),
              Called (Call (Global ''onnx.load'') [Str ''model.onnx''] []) (Inr graph),
              Called (Call (Global ''onnx.checker.check_model'') [graph] []) (Inr ck),
              Called (Call (Import ''azureml.core.model'') [Str ''Model''] []) (Inr i4),
              Called (Call (Global ''Model.register'') []
                        [(''workspace'', wsv), (''model_path'', Str ''model.onnx''),
                         (''model_name'', Str ''onnx-birds'')]) (Inr reg),
              Printed [Attr reg ''name'', Attr reg ''id'', Attr reg ''version'']
                [(''sep'', Str [CHR 0x09])]]"
  using assms
  by (auto simp: cell_defs stmt_eval res_cases new_events_def
           simp del: block.simps(2) split: sum.splits option.splits if_splits)

theorem model_handling_order_witness:
  "\<exists>i1 dl model i2 dummy ex i3 graph ck i4 reg.
     new_events best_run_state
       (snd (block [cell_download world_ok, cell_export world_ok, cell_check world_ok,
                    cell_register world_ok] best_run_state)) =
       [Called (Call (Import ''torch'') [] []) (Inr i1),
        Called (Call (Method (Obj 1) ''download_file'') [Str ''outputs/model.pt'']
                  [(''output_file_path'', Str ''model.pt'')]) (Inr dl),
        Called (Call (Global ''torch.load'') [Str ''model.pt''] []) (Inr model),
        Called (Call (Import ''torch.onnx'') [] []) (Inr i2),
        Called (Call (Global ''torch.randn'') [IntV 1, IntV 3, IntV 224, IntV 224] [])
          (Inr dummy),
        Called (Call (Global ''torch.onnx.export'') [model, dummy, Str ''model.onnx''] [])
          (Inr ex),
        Called (Call (Import ''onnx'') [] []) (Inr i3),
        Called (Call (Global ''onnx.load'') [Str ''model.onnx''] []) (Inr graph),
        Called (Call (Global ''onnx.checker.check_model'') [graph] []) (Inr ck),
        Called (Call (Import ''azureml.core.model'') [Str ''Model''] []) (Inr i4),
        Called (Call (Global ''Model.register'') []
                  [(''workspace'', Obj 0), (''model_path'', Str ''model.onnx''),
                   (''model_name'', Str ''onnx-birds'')]) (Inr reg),
        Printed [Attr reg ''name'', Attr reg ''id'', Attr reg ''version'']
          [(''sep'', Str [CHR 0x09])]]"
proof -
  have ok:
    "fst (block [cell_download world_ok, cell_export world_ok, cell_check world_ok,
                 cell_register world_ok] best_run_state) = None"
    by code_simp
  have best: "env best_run_state ''best_run'' = Some (Obj 1)"
    by code_simp
  have ws: "env best_run_state ''ws'' = Some (Obj 0)"
    by code_simp
  show ?thesis
    by (rule model_handling_order
          [OF run_ok
                [of "block [cell_download world_ok, cell_export world_ok,
                            cell_check world_ok, cell_register world_ok]" best_run_state,
                 OF ok]
              best ws])
qed

text \<open>
  The export cell alone. When it ends normally it has imported \<open>torch.onnx\<close>, called
  \<open>torch.randn(1, 3, 224, 224)\<close> once, and passed what that call returned, with the model,
  to \<open>torch.onnx.export\<close>; it calls nothing else, in particular nothing that seeds the
  generator. Which element values the tensor holds is the generator's answer, a parameter
  here.
\<close>

lemma export_cell_events:
  assumes "cell_export w \<sigma> = (None, \<sigma>')" and "env \<sigma> ''best_run_model'' = Some model"
  shows "\<exists>i dummy ex.
           new_events \<sigma> \<sigma>' =
             [Called (Call (Import ''torch.onnx'') [] []) (Inr i),
              Called randn_call (Inr dummy),
              Called (Call (Global ''torch.onnx.export'') [model, dummy, Str ''model.onnx''] [])
                (Inr ex)]
         \<and> env \<sigma>' ''dummy_input'' = Some dummy"
  using assms
  by (auto simp: cell_defs stmt_eval res_cases new_events_def randn_call_def
           simp del: block.simps(2) split: sum.splits option.splits if_splits)

section \<open>The one handler\<close>

lemma starts_provisioning_append:
  "starts_provisioning xs \<Longrightarrow> starts_provisioning (xs @ ys)"
  by (induction xs rule: starts_provisioning.induct) simp_all

lemma handled_append: "handled xs \<Longrightarrow> handled ys \<Longrightarrow> handled (xs @ ys)"
  by (induction xs) (auto simp: starts_provisioning_append)

lemma handled_none: "list_all (\<lambda>ev. \<not> caught ev) evs \<Longrightarrow> handled evs"
  by (induction evs) simp_all

lemma sound_plain:
  assumes "surfaces (\<lambda>out. out) s" and "emits (\<lambda>ev. \<not> caught ev) s"
  shows "sound s"
  unfolding sound_def
proof
  fix \<sigma>
  from assms(1) obtain evs where
    a: "trace (snd (s \<sigma>)) = trace \<sigma> @ evs" "surfaced (fst (s \<sigma>)) evs"
    unfolding surfaces_def by blast
  from assms(2) obtain evs' where
    b: "trace (snd (s \<sigma>)) = trace \<sigma> @ evs'" "list_all (\<lambda>ev. \<not> caught ev) evs'"
    unfolding emits_def by blast
  from a(1) b(1) have "evs' = evs" by simp
  with a b(2) handled_none [of evs]
  show "\<exists>evs. trace (snd (s \<sigma>)) = trace \<sigma> @ evs \<and> surfaced (fst (s \<sigma>)) evs \<and> handled evs"
    by blast
qed

lemma sound_block_Nil: "sound (block [])"
  by (simp add: sound_def surfaced_Nil)

lemma sound_block_Cons:
  assumes "sound s" and "sound (block ss)"
  shows "sound (block (s # ss))"
  unfolding sound_def
proof
  fix \<sigma>
  obtain out \<sigma>1 where s: "s \<sigma> = (out, \<sigma>1)" by (cases "s \<sigma>")
  from assms(1) s obtain evs1 where
    e1: "trace \<sigma>1 = trace \<sigma> @ evs1" "surfaced out evs1" "handled evs1"
    unfolding sound_def by (metis fst_conv snd_conv)
  show "\<exists>evs. trace (snd (block (s # ss) \<sigma>)) = trace \<sigma> @ evs
          \<and> surfaced (fst (block (s # ss) \<sigma>)) evs \<and> handled evs"
  proof (cases out)
    case (Some e)
    with s e1 show ?thesis by auto
  next
    case None
    from assms(2) obtain evs2 where
      e2: "trace (snd (block ss \<sigma>1)) = trace \<sigma>1 @ evs2"
          "surfaced (fst (block ss \<sigma>1)) evs2" "handled evs2"
      unfolding sound_def by blast
    from None e1 have u: "uncaught evs1 = []" by (simp add: surfaced_None)
    from None s have "block (s # ss) \<sigma> = block ss \<sigma>1" by simp
    with e1 e2 surfaced_append [OF u e2(2)] handled_append [OF e1(3) e2(3)]
    have "trace (snd (block (s # ss) \<sigma>)) = trace \<sigma> @ (evs1 @ evs2)
        \<and> surfaced (fst (block (s # ss) \<sigma>)) (evs1 @ evs2) \<and> handled (evs1 @ evs2)"
      by simp
    then show ?thesis by blast
  qed
qed

lemma sound_block: "list_all sound ss \<Longrightarrow> sound (block ss)"
  by (induction ss) (simp_all add: sound_block_Nil sound_block_Cons)

lemma compute_cell_run:
  assumes "cell_compute w \<sigma> = (out, \<sigma>')"
  shows "trace \<sigma>' = trace \<sigma> @ new_events \<sigma> \<sigma>' \<and> surfaced out (new_events \<sigma> \<sigma>')
       \<and> handled (new_events \<sigma> \<sigma>')"
  using assms
  by (auto simp: cell_defs stmt_eval res_cases new_events_def surfaced_def uncaught_def
                 creating_message_def provisioning_call_def
           simp del: block.simps(2) split: sum.splits option.splits if_splits)

lemma sound_compute: "sound (cell_compute w)"
  unfolding sound_def
proof
  fix \<sigma>
  from compute_cell_run [OF run_pair [of "cell_compute w" \<sigma>]]
  show "\<exists>evs. trace (snd (cell_compute w \<sigma>)) = trace \<sigma> @ evs
          \<and> surfaced (fst (cell_compute w \<sigma>)) evs \<and> handled evs"
    by blast
qed

lemma caught_Called:
  "caught (Called (Call f args kw) r) \<longleftrightarrow>
     f = Global ''ComputeTarget'' \<and> r = Inl ComputeTargetException"
  by (cases f; cases r) auto

lemma surfaces_other_cells:
  "list_all (surfaces (\<lambda>out. out)) (take 3 (notebook w) @ drop 4 (notebook w))"
  apply (simp add: notebook_def)
  apply (unfold cell_defs)
  apply (intro conjI surfaces_rules)
  done

lemma no_lookup_in_other_cells:
  "list_all (emits (\<lambda>ev. \<not> caught ev)) (take 3 (notebook w) @ drop 4 (notebook w))"
  apply (simp add: notebook_def)
  apply (unfold cell_defs)
  apply (intro conjI emits_rules; simp add: caught_Called)
  done

lemma sound_cells: "list_all sound (notebook w)"
proof -
  have others: "list_all sound (take 3 (notebook w) @ drop 4 (notebook w))"
    using surfaces_other_cells [of w] no_lookup_in_other_cells [of w]
    by (simp add: list_all_iff sound_plain)
  have cells: "notebook w = take 3 (notebook w) @ cell_compute w # drop 4 (notebook w)"
    by (simp add: notebook_def)
  from others sound_compute [of w]
  have "list_all sound (take 3 (notebook w) @ cell_compute w # drop 4 (notebook w))"
    by simp
  then show ?thesis
    by (simp only: cells [symmetric])
qed

text \<open>
  C5. From any cell on, in any kernel state and on any platform. The failure that the one
  handler of the notebook takes, the compute-target lookup raising
  \<open>ComputeTargetException\<close>, is followed at once by the handler's message and the
  provisioning request. Every other call that fails is the last thing the run does, and
  its exception is the outcome of the run; a run that ends normally has had no other
  failure.
\<close>

theorem errors_surface:
  "\<exists>evs. trace (snd (block (drop k (notebook w)) \<sigma>)) = trace \<sigma> @ evs
         \<and> surfaced (fst (block (drop k (notebook w)) \<sigma>)) evs
         \<and> handled evs"
proof -
  have "sound (block (drop k (notebook w)))"
    by (rule sound_block [OF list_all_drop [OF sound_cells]])
  then show ?thesis
    by (simp add: sound_def)
qed

theorem errors_surface_witness:
  "fst (block (drop 0 (notebook world_new_cluster_no_registry)) stale_kernel)
     = Some (OtherException ''WebserviceException'')
   \<and> raised (last (trace (snd (block (drop 0 (notebook world_new_cluster_no_registry))
                               stale_kernel))))
     = Some (OtherException ''WebserviceException'')
   \<and> list_ex caught
       (trace (snd (block (drop 0 (notebook world_new_cluster_no_registry)) stale_kernel)))
   \<and> list_ex (is_global ''ComputeTarget.create'')
       (trace (snd (block (drop 0 (notebook world_new_cluster_no_registry)) stale_kernel)))
   \<and> (\<exists>evs. trace (snd (block (drop 0 (notebook world_new_cluster_no_registry)) stale_kernel))
              = trace stale_kernel @ evs
            \<and> surfaced (Some (OtherException ''WebserviceException'')) evs
            \<and> handled evs)"
proof -
  have out: "fst (block (drop 0 (notebook world_new_cluster_no_registry)) stale_kernel)
               = Some (OtherException ''WebserviceException'')"
    and lst: "raised (last (trace (snd (block (drop 0 (notebook world_new_cluster_no_registry))
                                          stale_kernel))))
               = Some (OtherException ''WebserviceException'')"
    and cgt: "list_ex caught
       (trace (snd (block (drop 0 (notebook world_new_cluster_no_registry)) stale_kernel)))"
    and crt: "list_ex (is_global ''ComputeTarget.create'')
       (trace (snd (block (drop 0 (notebook world_new_cluster_no_registry)) stale_kernel)))"
    by code_simp+
  from errors_surface [of 0 world_new_cluster_no_registry stale_kernel]
  obtain evs where
    "trace (snd (block (drop 0 (notebook world_new_cluster_no_registry)) stale_kernel))
       = trace stale_kernel @ evs"
    "surfaced (fst (block (drop 0 (notebook world_new_cluster_no_registry)) stale_kernel)) evs"
    "handled evs"
    by blast
  with out lst cgt crt show ?thesis
    by (simp only:) blast
qed

section \<open>Staging the training script\<close>

lemma makedirs_exist_ok:
  assumes "fs p = Some Dir"
  shows "os_makedirs p True fs = (Inr NoneV, fs)"
    and "os_makedirs p False fs = (Inl (FileExistsError p), fs)"
  using assms by (simp_all add: os_makedirs_def)




end
